theory Spec2Isabelle
  imports Complex_Main "HOL-Library.Sublist" "HOL-Library.Multiset" "HOL-Library.Product_Lexorder"
begin

section \<open>The tables read by the user-analytics router\<close>

text \<open>
  The router \<^verbatim>\<open>server/routes/user-analytics.js\<close> reads four tables through raw SQL.
  Their declarations (the Sequelize models) are not part of the sources, so the
  rows below carry exactly the columns the SQL text of the router names. A column is
  nullable where the router says so (\<^verbatim>\<open>session_duration IS NOT NULL\<close>, the left join with
  \<^verbatim>\<open>templates\<close>, a \<^verbatim>\<open>MAX\<close> over a possibly empty set) and for the timestamps that are
  only set by a later event; every other column is modelled as \<^verbatim>\<open>NOT NULL\<close>.
  Timestamps are seconds since the epoch; \<^verbatim>\<open>DATE(ts)\<close> is the number of the day.
  Money and durations are integers of their smallest unit.
\<close>

type_synonym timestamp = int
type_synonym day = int

definition DATE :: "timestamp \<Rightarrow> day" where
  "DATE ts = ts div 86400"

record user =
  u_id :: int
  u_username :: string
  u_email :: string
  u_created_at :: timestamp
  u_last_login_at :: "timestamp option"
  u_is_active :: bool
  u_is_admin :: bool
  u_is_vip :: bool
  u_vip_expiry :: "timestamp option"
  u_free_previews :: int
  u_balance :: int
  u_subscription_type :: "string option"

record generation =
  g_id :: int
  g_user_id :: int
  g_template_id :: "int option"
  g_generation_type :: string
  g_is_paid :: bool
  g_status :: string
  g_created_at :: timestamp
  g_processing_time :: "int option"
  g_payment_amount :: "int option"

record login_log =
  ll_id :: int
  ll_user_id :: int
  ll_username :: string
  ll_login_time :: timestamp
  ll_logout_time :: "timestamp option"
  ll_login_success :: bool
  ll_session_duration :: "int option"
  ll_ip_address :: string
  ll_user_agent :: string

record template =
  t_id :: int
  t_name :: string

record db =
  users :: "user list"
  generations :: "generation list"
  login_logs :: "login_log list"
  templates :: "template list"

section \<open>Requests, replacements and the database client\<close>

text \<open>
  \<^verbatim>\<open>req.query\<close> holds strings; a parameter that is not supplied is \<^verbatim>\<open>undefined\<close>
  (\<open>None\<close>). \<^verbatim>\<open>page\<close> and \<^verbatim>\<open>limit\<close> are used by the router as numbers
  (\<^verbatim>\<open>page - 1\<close>, \<^verbatim>\<open>parseInt(limit)\<close>, \<^verbatim>\<open>total / limit\<close>): they are modelled by the integer
  a numeric parameter denotes, with exact arithmetic. \<^verbatim>\<open>req.params.userId\<close> is the
  path segment of \<^verbatim>\<open>/users/:userId\<close>.
\<close>

record request =
  q_page :: "int option"
  q_limit :: "int option"
  q_search :: "string option"
  q_dateFrom :: "string option"
  q_dateTo :: "string option"
  q_userId :: "string option"
  p_userId :: string

text \<open>JavaScript's truthiness of a query parameter: \<^verbatim>\<open>undefined\<close> and \<^verbatim>\<open>''\<close> are falsy.\<close>

fun truthy :: "string option \<Rightarrow> bool" where
  "truthy None = False"
| "truthy (Some s) = (s \<noteq> [])"

text \<open>\<^verbatim>\<open>if (x) { ... x ... }\<close> as a state transformer: the body runs on the string \<open>x\<close> holds.\<close>

definition when_truthy :: "string option \<Rightarrow> (string \<Rightarrow> 'a \<Rightarrow> 'a) \<Rightarrow> 'a \<Rightarrow> 'a" where
  "when_truthy x body st = (case x of None \<Rightarrow> st | Some s \<Rightarrow> if s \<noteq> [] then body s st else st)"

text \<open>The values bound to the named placeholders of a query (\<^verbatim>\<open>{ replacements }\<close>).\<close>

datatype jsval = JStr string | JNum int

type_synonym replacements = "string \<rightharpoonup> jsval"

text \<open>
  What \<^verbatim>\<open>sequelize.query\<close> can throw. The router catches every exception in one
  \<^verbatim>\<open>catch\<close> block, so the kinds only document where a failure comes from.
\<close>

datatype sql_error =
    Syntax_error
  | Invalid_input
  | Missing_replacement
  | Negative_limit

text \<open>
  The database converts the text bound to a placeholder to the type of the column it
  is compared with, and raises an error for text it cannot convert. The column types are
  declared outside the sources, so the two conversions the router relies on are
  parameters of the model.
\<close>

record pg =
  timestamp_in :: "string \<Rightarrow> timestamp option"
  id_in :: "string \<Rightarrow> int option"

section \<open>The dynamic part of the SQL text\<close>

text \<open>
  The router assembles its \<^verbatim>\<open>WHERE\<close> clauses by string concatenation. The model keeps the
  concatenation and replaces each piece of text by its tokens: the keywords
  \<^verbatim>\<open>WHERE\<close> and \<^verbatim>\<open>AND\<close>, and one token for each condition the router writes. A condition
  names its column by the accessor of the row.
\<close>

datatype 'r cond =
    Ge "'r \<Rightarrow> timestamp" string
  | Le "'r \<Rightarrow> timestamp" string
  | Eq_id "'r \<Rightarrow> int" string
  | Is_true "'r \<Rightarrow> bool"
  | Eq_text "'r \<Rightarrow> string" string
  | Not_null "'r \<Rightarrow> int option"
  | ILike "'r \<Rightarrow> string" string
  | Or "'r cond" "'r cond"

datatype 'r tok = Kw_WHERE | Kw_AND | Cond "'r cond"

text \<open>
  The grammar of the text between \<^verbatim>\<open>FROM table\<close> and \<^verbatim>\<open>GROUP BY\<close>: nothing, or
  \<^verbatim>\<open>WHERE\<close> followed by conditions separated by \<^verbatim>\<open>AND\<close>. Anything else is a syntax error.
\<close>

fun conjuncts :: "'r tok list \<Rightarrow> sql_error + 'r cond list" where
  "conjuncts [Cond c] = Inr [c]"
| "conjuncts (Cond c # Kw_AND # ts) =
     (case conjuncts ts of Inl e \<Rightarrow> Inl e | Inr cs \<Rightarrow> Inr (c # cs))"
| "conjuncts _ = Inl Syntax_error"

fun where_clause :: "'r tok list \<Rightarrow> sql_error + 'r cond list" where
  "where_clause [] = Inr []"
| "where_clause (Kw_WHERE # ts) = conjuncts ts"
| "where_clause _ = Inl Syntax_error"

subsection \<open>ILIKE\<close>

text \<open>
  \<^verbatim>\<open>LIKE\<close> patterns: \<^verbatim>\<open>%\<close> matches any sequence of characters, \<^verbatim>\<open>_\<close> any single
  character, and a backslash makes the next character literal. \<^verbatim>\<open>ILIKE\<close> compares
  without regard to the case of letters (here: of the letters \<^verbatim>\<open>A\<close> to \<^verbatim>\<open>Z\<close>). The database
  rejects a pattern that ends in a single backslash; the router's pattern
  \<^verbatim>\<open>%${search}%\<close> ends in \<^verbatim>\<open>%\<close>, so that case does not arise and is a plain mismatch here.
\<close>

definition lower_char :: "char \<Rightarrow> char" where
  "lower_char c =
     (let n = (of_char c :: nat) in if 65 \<le> n \<and> n \<le> 90 then char_of (n + 32) else c)"

definition lower :: "string \<Rightarrow> string" where
  "lower s = map lower_char s"

fun like :: "string \<Rightarrow> string \<Rightarrow> bool" where
  "like [] s = (s = [])"
| "like (p # ps) s =
     (if p = CHR ''%'' then
        (like ps s \<or> (case s of [] \<Rightarrow> False | _ # s' \<Rightarrow> like (p # ps) s'))
      else if p = CHR ''_'' then
        (case s of [] \<Rightarrow> False | _ # s' \<Rightarrow> like ps s')
      else if p = CHR 0x5C then
        (case ps of
           [] \<Rightarrow> False
         | q # qs \<Rightarrow> (case s of [] \<Rightarrow> False | c # s' \<Rightarrow> c = q \<and> like qs s'))
      else
        (case s of [] \<Rightarrow> False | c # s' \<Rightarrow> c = p \<and> like ps s'))"

definition ilike :: "string \<Rightarrow> string \<Rightarrow> bool" where
  "ilike s pattern = like (lower pattern) (lower s)"

subsection \<open>Binding the placeholders\<close>

text \<open>
  A condition becomes a predicate on rows once its placeholder is bound. A placeholder
  without a replacement makes Sequelize throw; text that the database cannot convert to
  the column's type makes the query fail, whatever the rows are.
\<close>

fun bind :: "pg \<Rightarrow> replacements \<Rightarrow> 'r cond \<Rightarrow> sql_error + ('r \<Rightarrow> bool)" where
  "bind P rs (Ge col n) =
     (case rs n of
        None \<Rightarrow> Inl Missing_replacement
      | Some (JNum _) \<Rightarrow> Inl Invalid_input
      | Some (JStr s) \<Rightarrow>
          (case timestamp_in P s of
             None \<Rightarrow> Inl Invalid_input
           | Some t \<Rightarrow> Inr (\<lambda>r. t \<le> col r)))"
| "bind P rs (Le col n) =
     (case rs n of
        None \<Rightarrow> Inl Missing_replacement
      | Some (JNum _) \<Rightarrow> Inl Invalid_input
      | Some (JStr s) \<Rightarrow>
          (case timestamp_in P s of
             None \<Rightarrow> Inl Invalid_input
           | Some t \<Rightarrow> Inr (\<lambda>r. col r \<le> t)))"
| "bind P rs (Eq_id col n) =
     (case rs n of
        None \<Rightarrow> Inl Missing_replacement
      | Some (JNum i) \<Rightarrow> Inr (\<lambda>r. col r = i)
      | Some (JStr s) \<Rightarrow>
          (case id_in P s of
             None \<Rightarrow> Inl Invalid_input
           | Some i \<Rightarrow> Inr (\<lambda>r. col r = i)))"
| "bind P rs (Is_true col) = Inr (\<lambda>r. col r)"
| "bind P rs (Eq_text col lit) = Inr (\<lambda>r. col r = lit)"
| "bind P rs (Not_null col) = Inr (\<lambda>r. col r \<noteq> None)"
| "bind P rs (ILike col n) =
     (case rs n of
        None \<Rightarrow> Inl Missing_replacement
      | Some (JNum _) \<Rightarrow> Inl Invalid_input
      | Some (JStr s) \<Rightarrow> Inr (\<lambda>r. ilike (col r) s))"
| "bind P rs (Or a b) =
     (case bind P rs a of
        Inl e \<Rightarrow> Inl e
      | Inr p \<Rightarrow> (case bind P rs b of Inl e \<Rightarrow> Inl e | Inr q \<Rightarrow> Inr (\<lambda>r. p r \<or> q r)))"

fun bind_all :: "pg \<Rightarrow> replacements \<Rightarrow> 'r cond list \<Rightarrow> sql_error + ('r \<Rightarrow> bool)" where
  "bind_all P rs [] = Inr (\<lambda>r. True)"
| "bind_all P rs (c # cs) =
     (case bind P rs c of
        Inl e \<Rightarrow> Inl e
      | Inr p \<Rightarrow> (case bind_all P rs cs of Inl e \<Rightarrow> Inl e | Inr q \<Rightarrow> Inr (\<lambda>r. p r \<and> q r)))"

text \<open>\<^verbatim>\<open>FROM table <tokens>\<close>: the rows of the table that satisfy the clause.\<close>

definition rows_where ::
  "pg \<Rightarrow> replacements \<Rightarrow> 'r tok list \<Rightarrow> 'r list \<Rightarrow> sql_error + 'r list" where
  "rows_where P rs toks table =
     (case where_clause toks of
        Inl e \<Rightarrow> Inl e
      | Inr cs \<Rightarrow> (case bind_all P rs cs of Inl e \<Rightarrow> Inl e | Inr p \<Rightarrow> Inr (filter p table)))"

subsection \<open>Grouping, ordering, counting, limits\<close>

text \<open>
  \<^verbatim>\<open>GROUP BY key\<close> yields one group for each distinct key. \<^verbatim>\<open>ORDER BY key DESC\<close> sorts;
  SQL leaves the order of rows with equal keys open, the model takes one such order.
\<close>

definition group_keys :: "('r \<Rightarrow> 'k) \<Rightarrow> 'r list \<Rightarrow> 'k list" where
  "group_keys key rows = remdups (map key rows)"

definition order_by_desc :: "('r \<Rightarrow> 'k::linorder) \<Rightarrow> 'r list \<Rightarrow> 'r list" where
  "order_by_desc key rows = rev (sort_key key rows)"

definition count_rows :: "'r list \<Rightarrow> int" where
  "count_rows rows = int (length rows)"

definition count_distinct :: "('r \<Rightarrow> 'k) \<Rightarrow> 'r list \<Rightarrow> int" where
  "count_distinct col rows = int (length (remdups (map col rows)))"

fun bound_number :: "replacements \<Rightarrow> string \<Rightarrow> sql_error + int" where
  "bound_number rs n =
     (case rs n of
        None \<Rightarrow> Inl Missing_replacement
      | Some (JStr _) \<Rightarrow> Inl Invalid_input
      | Some (JNum i) \<Rightarrow> Inr i)"

text \<open>\<^verbatim>\<open>LIMIT :limit OFFSET :offset\<close>; the database rejects a negative limit or offset.\<close>

definition limit_offset ::
  "replacements \<Rightarrow> string \<Rightarrow> string \<Rightarrow> 'r list \<Rightarrow> sql_error + 'r list" where
  "limit_offset rs lname oname rows =
     (case bound_number rs lname of
        Inl e \<Rightarrow> Inl e
      | Inr n \<Rightarrow>
          (case bound_number rs oname of
             Inl e \<Rightarrow> Inl e
           | Inr offset \<Rightarrow>
               if n < 0 \<or> offset < 0 then Inl Negative_limit
               else Inr (take (nat n) (drop (nat offset) rows))))"

section \<open>Responses and the effect of a query\<close>

text \<open>The rows of \<^verbatim>\<open>GET /users\<close>: the selected columns of \<open>u\<close> and the aggregates.\<close>

record user_row =
  ur_id :: int
  ur_username :: string
  ur_email :: string
  ur_registration_time :: timestamp
  ur_last_login_at :: "timestamp option"
  ur_is_active :: bool
  ur_is_admin :: bool
  ur_is_vip :: bool
  ur_vip_expiry :: "timestamp option"
  ur_free_previews :: int
  ur_balance :: int
  ur_preview_count :: int
  ur_download_count :: int
  ur_total_generations :: int
  ur_login_count :: int
  ur_last_login_time :: "timestamp option"

record pagination =
  pag_total :: int
  pag_page :: int
  pag_limit :: int
  pag_pages :: "int option"

record user_info =
  ui_id :: int
  ui_username :: string
  ui_email :: string
  ui_registration_time :: timestamp
  ui_last_login_at :: "timestamp option"
  ui_is_active :: bool
  ui_is_admin :: bool
  ui_is_vip :: bool
  ui_vip_expiry :: "timestamp option"
  ui_free_previews :: int
  ui_balance :: int
  ui_subscription_type :: "string option"
  ui_preview_count :: int
  ui_download_count :: int
  ui_total_logins :: int

record preview_record =
  pr_id :: int
  pr_created_at :: timestamp
  pr_status :: string
  pr_processing_time :: "int option"
  pr_template_name :: "string option"
  pr_template_id :: "int option"

record download_record =
  dr_id :: int
  dr_created_at :: timestamp
  dr_status :: string
  dr_payment_amount :: "int option"
  dr_processing_time :: "int option"
  dr_template_name :: "string option"
  dr_template_id :: "int option"

record login_record =
  lr_login_time :: timestamp
  lr_logout_time :: "timestamp option"
  lr_session_duration :: "int option"
  lr_ip_address :: string
  lr_user_agent :: string

record registration_row =
  reg_date :: day
  reg_count :: int

record login_row =
  lg_date :: day
  lg_unique_users :: int
  lg_total_logins :: int

record duration_row =
  od_username :: string
  od_date :: day
  od_total_seconds :: "int option"
  od_session_count :: int

record overview =
  ov_total_users :: int
  ov_active_users :: int
  ov_total_previews :: int
  ov_total_downloads :: int
  ov_total_logins :: int

text \<open>The two fixed messages of the router: the body of a 500 and of a 404.\<close>

datatype message = Server_internal_error | User_does_not_exist

datatype body =
    Message message
  | Users "user_row list" pagination
  | User_detail user_info "preview_record list" "download_record list" "login_record list"
  | Registrations "registration_row list"
  | Logins "login_row list"
  | Online_duration "duration_row list"
  | Overview overview

record response =
  status :: nat
  body :: body

text \<open>
  The statements of the router, named by what they select. A handler runs in a world that
  holds the tables and the names of the statements issued so far.
\<close>

datatype stmt =
    SELECT_users_page
  | SELECT_users_total
  | SELECT_user_info
  | SELECT_preview_records
  | SELECT_download_records
  | SELECT_login_records
  | SELECT_registrations
  | SELECT_logins
  | SELECT_online_duration
  | SELECT_total_users
  | SELECT_active_users
  | SELECT_total_previews
  | SELECT_total_downloads
  | SELECT_total_logins

record world =
  database :: db
  issued :: "stmt list"

text \<open>
  \<^verbatim>\<open>sequelize.query\<close> sends any SQL text. A text that begins with \<^verbatim>\<open>SELECT\<close> computes rows
  from the tables; a data-modifying text (\<^verbatim>\<open>INSERT\<close>, \<^verbatim>\<open>UPDATE\<close>, \<^verbatim>\<open>DELETE\<close>) computes
  its result together with the tables it leaves behind. A statement of a handler is written
  with the constructor its text begins with.
\<close>

datatype 'a sql =
    Select stmt "db \<Rightarrow> sql_error + 'a"
  | Modifying stmt "db \<Rightarrow> sql_error + 'a \<times> db"

text \<open>
  \<^verbatim>\<open>await sequelize.query(sql, { replacements })\<close>: the statement is recorded and run on
  the tables. A statement that fails leaves the tables as they are.
\<close>

definition sequelize_query :: "'a sql \<Rightarrow> world \<Rightarrow> (sql_error + 'a) \<times> world" where
  "sequelize_query q w =
     (case q of
        Select s rows \<Rightarrow> (rows (database w), w\<lparr>issued := issued w @ [s]\<rparr>)
      | Modifying s change \<Rightarrow>
          (case change (database w) of
             Inl e \<Rightarrow> (Inl e, w\<lparr>issued := issued w @ [s]\<rparr>)
           | Inr (result, d) \<Rightarrow> (Inr result, w\<lparr>database := d, issued := issued w @ [s]\<rparr>)))"

definition internal_error :: response where
  "internal_error = \<lparr>status = 500, body = Message Server_internal_error\<rparr>"

definition not_found :: response where
  "not_found = \<lparr>status = 404, body = Message User_does_not_exist\<rparr>"

definition json :: "body \<Rightarrow> response" where
  "json b = \<lparr>status = 200, body = b\<rparr>"

section \<open>GET /users\<close>

text \<open>
  The two classes of generation rows the router counts:
  \<^verbatim>\<open>g.generation_type = 'preview'\<close> and \<^verbatim>\<open>g.generation_type = 'paid' OR g.is_paid = true\<close>.
\<close>

definition is_preview :: "generation \<Rightarrow> bool" where
  "is_preview g = (g_generation_type g = ''preview'')"

definition is_download :: "generation \<Rightarrow> bool" where
  "is_download g = (g_generation_type g = ''paid'' \<or> g_is_paid g)"

text \<open>\<^verbatim>\<open>MAX\<close> is \<^verbatim>\<open>NULL\<close> over no rows.\<close>

fun sql_max :: "int list \<Rightarrow> int option" where
  "sql_max [] = None"
| "sql_max (x # xs) = Some (fold max xs x)"

text \<open>
  One row of the grouped join
  \<^verbatim>\<open>FROM users u LEFT JOIN generations g ON u.id = g.user_id
  LEFT JOIN login_logs ll ON u.id = ll.user_id AND ll.login_success = true\<close>:
  the columns of \<open>u\<close>, and the aggregates over the generations and the successful logins
  joined to \<open>u\<close>. Every count is a \<^verbatim>\<open>COUNT(DISTINCT id)\<close>, so the product of the two joins
  does not count a row twice.
\<close>

definition user_row_of :: "db \<Rightarrow> user \<Rightarrow> user_row" where
  "user_row_of d u =
     (let gs = filter (\<lambda>g. u_id u = g_user_id g) (generations d);
          lls = filter (\<lambda>l. u_id u = ll_user_id l \<and> ll_login_success l) (login_logs d)
      in \<lparr>ur_id = u_id u,
          ur_username = u_username u,
          ur_email = u_email u,
          ur_registration_time = u_created_at u,
          ur_last_login_at = u_last_login_at u,
          ur_is_active = u_is_active u,
          ur_is_admin = u_is_admin u,
          ur_is_vip = u_is_vip u,
          ur_vip_expiry = u_vip_expiry u,
          ur_free_previews = u_free_previews u,
          ur_balance = u_balance u,
          ur_preview_count = count_distinct g_id (filter is_preview gs),
          ur_download_count = count_distinct g_id (filter is_download gs),
          ur_total_generations = count_distinct g_id gs,
          ur_login_count = count_distinct ll_id lls,
          ur_last_login_time = sql_max (map ll_login_time lls)\<rparr>)"

text \<open>
  \<^verbatim>\<open>SELECT u.id, ..., COUNT(DISTINCT g.id) FILTER (WHERE ...) as preview_count, ...
  FROM users u LEFT JOIN ... WHERE (u.username ILIKE :search OR u.email ILIKE :search)
  ${dateFilter} GROUP BY u.id, u.username, ... ORDER BY u.created_at DESC
  LIMIT :limit OFFSET :offset\<close>.
  The statement groups by every selected column of \<open>u\<close>: equal rows fall into one group.
\<close>

definition users_page_sql ::
  "pg \<Rightarrow> user tok list \<Rightarrow> replacements \<Rightarrow> db \<Rightarrow> sql_error + user_row list" where
  "users_page_sql P dateFilter rs d =
     (case rows_where P rs
             ([Kw_WHERE, Cond (Or (ILike u_username ''search'') (ILike u_email ''search''))]
                @ dateFilter)
             (users d) of
        Inl e \<Rightarrow> Inl e
      | Inr us \<Rightarrow>
          limit_offset rs ''limit'' ''offset''
            (order_by_desc ur_registration_time (remdups (map (user_row_of d) us))))"

text \<open>
  \<^verbatim>\<open>SELECT COUNT(DISTINCT u.id) as total FROM users u
  WHERE (u.username ILIKE :search OR u.email ILIKE :search) ${dateFilter}\<close>
\<close>

definition users_total_sql ::
  "pg \<Rightarrow> user tok list \<Rightarrow> replacements \<Rightarrow> db \<Rightarrow> sql_error + int" where
  "users_total_sql P dateFilter rs d =
     (case rows_where P rs
             ([Kw_WHERE, Cond (Or (ILike u_username ''search'') (ILike u_email ''search''))]
                @ dateFilter)
             (users d) of
        Inl e \<Rightarrow> Inl e
      | Inr us \<Rightarrow> Inr (count_distinct u_id us))"

text \<open>
  \<^verbatim>\<open>Math.ceil(total / limit)\<close>. A division by zero gives \<^verbatim>\<open>Infinity\<close> or \<^verbatim>\<open>NaN\<close>, which
  \<^verbatim>\<open>res.json\<close> writes as \<^verbatim>\<open>null\<close> (\<open>None\<close>).
\<close>

definition math_ceil_div :: "int \<Rightarrow> int \<Rightarrow> int option" where
  "math_ceil_div a b = (if b = 0 then None else Some (- ((- a) div b)))"

definition get_users :: "pg \<Rightarrow> request \<Rightarrow> world \<Rightarrow> response \<times> world" where
  "get_users P req w =
     (let page = (case q_page req of None \<Rightarrow> 1 | Some p \<Rightarrow> p);
          limit = (case q_limit req of None \<Rightarrow> 50 | Some l \<Rightarrow> l);
          search = (case q_search req of None \<Rightarrow> [] | Some s \<Rightarrow> s);
          dateFrom = q_dateFrom req; dateTo = q_dateTo req;
          offset = (page - 1) * limit;
          dateFilter = [];
          replacements = [''search'' \<mapsto> JStr (''%'' @ search @ ''%''),
                          ''limit'' \<mapsto> JNum limit,
                          ''offset'' \<mapsto> JNum offset];
          (dateFilter, replacements) =
            when_truthy dateFrom
              (\<lambda>s (f, r). (f @ [Kw_AND, Cond (Ge u_created_at ''dateFrom'')],
                           r(''dateFrom'' \<mapsto> JStr s)))
              (dateFilter, replacements);
          (dateFilter, replacements) =
            when_truthy dateTo
              (\<lambda>s (f, r). (f @ [Kw_AND, Cond (Le u_created_at ''dateTo'')],
                           r(''dateTo'' \<mapsto> JStr s)))
              (dateFilter, replacements);
          (res, w) = sequelize_query (Select SELECT_users_page
                       (users_page_sql P dateFilter replacements)) w
      in case res of
           Inl e \<Rightarrow> (internal_error, w)
         | Inr userRows \<Rightarrow>
     (let (res, w) = sequelize_query (Select SELECT_users_total
                       (users_total_sql P dateFilter replacements)) w
      in case res of
           Inl e \<Rightarrow> (internal_error, w)
         | Inr totalCount \<Rightarrow>
             (json (Users userRows
                      \<lparr>pag_total = totalCount,
                       pag_page = page,
                       pag_limit = limit,
                       pag_pages = math_ceil_div totalCount limit\<rparr>), w)))"

section \<open>GET /users/:userId\<close>

text \<open>
  \<^verbatim>\<open>SELECT u.id, ..., u.subscription_type, COUNT(DISTINCT g.id) FILTER (...) as preview_count,
  ..., COUNT(DISTINCT ll.id) as total_logins FROM users u LEFT JOIN generations g ...
  LEFT JOIN login_logs ll ... WHERE u.id = :userId GROUP BY u.id\<close>.
  The statement selects columns of \<open>u\<close> that it does not group by, which the database
  accepts only when \<^verbatim>\<open>users.id\<close> is the primary key: a group is one row of \<open>users\<close>.
\<close>

definition user_info_of :: "db \<Rightarrow> user \<Rightarrow> user_info" where
  "user_info_of d u =
     (let gs = filter (\<lambda>g. u_id u = g_user_id g) (generations d);
          lls = filter (\<lambda>l. u_id u = ll_user_id l \<and> ll_login_success l) (login_logs d)
      in \<lparr>ui_id = u_id u,
          ui_username = u_username u,
          ui_email = u_email u,
          ui_registration_time = u_created_at u,
          ui_last_login_at = u_last_login_at u,
          ui_is_active = u_is_active u,
          ui_is_admin = u_is_admin u,
          ui_is_vip = u_is_vip u,
          ui_vip_expiry = u_vip_expiry u,
          ui_free_previews = u_free_previews u,
          ui_balance = u_balance u,
          ui_subscription_type = u_subscription_type u,
          ui_preview_count = count_distinct g_id (filter is_preview gs),
          ui_download_count = count_distinct g_id (filter is_download gs),
          ui_total_logins = count_distinct ll_id lls\<rparr>)"

definition user_info_sql :: "pg \<Rightarrow> replacements \<Rightarrow> db \<Rightarrow> sql_error + user_info list" where
  "user_info_sql P rs d =
     (case rows_where P rs [Kw_WHERE, Cond (Eq_id u_id ''userId'')] (users d) of
        Inl e \<Rightarrow> Inl e
      | Inr us \<Rightarrow> Inr (map (user_info_of d) us))"

text \<open>
  \<^verbatim>\<open>FROM generations g LEFT JOIN templates t ON g.template_id = t.id\<close>: every generation
  with each template of its \<^verbatim>\<open>template_id\<close>, or once with \<^verbatim>\<open>NULL\<close>s when there is none.
\<close>

definition left_join_templates :: "db \<Rightarrow> generation list \<Rightarrow> (generation \<times> template option) list" where
  "left_join_templates d gs =
     concat (map (\<lambda>g. case filter (\<lambda>t. g_template_id g = Some (t_id t)) (templates d) of
                        [] \<Rightarrow> [(g, None)]
                      | ts \<Rightarrow> map (\<lambda>t. (g, Some t)) ts) gs)"

text \<open>
  \<^verbatim>\<open>SELECT g.id, g.created_at, g.status, g.processing_time, t.name as template_name,
  t.id as template_id FROM generations g LEFT JOIN templates t ON g.template_id = t.id
  WHERE g.user_id = :userId AND g.generation_type = 'preview'
  ORDER BY g.created_at DESC LIMIT 20\<close>
\<close>

definition preview_record_of :: "generation \<times> template option \<Rightarrow> preview_record" where
  "preview_record_of = (\<lambda>(g, t).
     \<lparr>pr_id = g_id g,
      pr_created_at = g_created_at g,
      pr_status = g_status g,
      pr_processing_time = g_processing_time g,
      pr_template_name = map_option t_name t,
      pr_template_id = map_option t_id t\<rparr>)"

definition preview_records_sql ::
  "pg \<Rightarrow> replacements \<Rightarrow> db \<Rightarrow> sql_error + preview_record list" where
  "preview_records_sql P rs d =
     (case rows_where P rs
             [Kw_WHERE, Cond (Eq_id g_user_id ''userId''), Kw_AND,
              Cond (Eq_text g_generation_type ''preview'')]
             (generations d) of
        Inl e \<Rightarrow> Inl e
      | Inr gs \<Rightarrow>
          Inr (take 20
                (order_by_desc pr_created_at
                  (map preview_record_of (left_join_templates d gs)))))"

text \<open>
  \<^verbatim>\<open>SELECT g.id, g.created_at, g.status, g.payment_amount, g.processing_time,
  t.name as template_name, t.id as template_id FROM generations g
  LEFT JOIN templates t ON g.template_id = t.id
  WHERE g.user_id = :userId AND (g.generation_type = 'paid' OR g.is_paid = true)
  ORDER BY g.created_at DESC LIMIT 20\<close>
\<close>

definition download_record_of :: "generation \<times> template option \<Rightarrow> download_record" where
  "download_record_of = (\<lambda>(g, t).
     \<lparr>dr_id = g_id g,
      dr_created_at = g_created_at g,
      dr_status = g_status g,
      dr_payment_amount = g_payment_amount g,
      dr_processing_time = g_processing_time g,
      dr_template_name = map_option t_name t,
      dr_template_id = map_option t_id t\<rparr>)"

definition download_records_sql ::
  "pg \<Rightarrow> replacements \<Rightarrow> db \<Rightarrow> sql_error + download_record list" where
  "download_records_sql P rs d =
     (case rows_where P rs
             [Kw_WHERE, Cond (Eq_id g_user_id ''userId''), Kw_AND,
              Cond (Or (Eq_text g_generation_type ''paid'') (Is_true g_is_paid))]
             (generations d) of
        Inl e \<Rightarrow> Inl e
      | Inr gs \<Rightarrow>
          Inr (take 20
                (order_by_desc dr_created_at
                  (map download_record_of (left_join_templates d gs)))))"

text \<open>
  \<^verbatim>\<open>SELECT login_time, logout_time, session_duration, ip_address, user_agent
  FROM login_logs WHERE user_id = :userId AND login_success = true
  ORDER BY login_time DESC LIMIT 30\<close>
\<close>

definition login_record_of :: "login_log \<Rightarrow> login_record" where
  "login_record_of l =
     \<lparr>lr_login_time = ll_login_time l,
      lr_logout_time = ll_logout_time l,
      lr_session_duration = ll_session_duration l,
      lr_ip_address = ll_ip_address l,
      lr_user_agent = ll_user_agent l\<rparr>"

definition login_records_sql ::
  "pg \<Rightarrow> replacements \<Rightarrow> db \<Rightarrow> sql_error + login_record list" where
  "login_records_sql P rs d =
     (case rows_where P rs
             [Kw_WHERE, Cond (Eq_id ll_user_id ''userId''), Kw_AND,
              Cond (Is_true ll_login_success)]
             (login_logs d) of
        Inl e \<Rightarrow> Inl e
      | Inr ls \<Rightarrow>
          Inr (take 30
                (order_by_desc lr_login_time
                  (map login_record_of ls))))"

text \<open>
  \<^verbatim>\<open>const [[userInfo]] = await sequelize.query(...)\<close> takes the first row, or
  \<^verbatim>\<open>undefined\<close> when there is none; \<^verbatim>\<open>if (!userInfo) return res.status(404)...\<close>.
\<close>

definition get_user :: "pg \<Rightarrow> request \<Rightarrow> world \<Rightarrow> response \<times> world" where
  "get_user P req w =
     (let userId = p_userId req;
          replacements = [''userId'' \<mapsto> JStr userId];
          (res, w) = sequelize_query (Select SELECT_user_info (user_info_sql P replacements)) w
      in case res of
           Inl e \<Rightarrow> (internal_error, w)
         | Inr [] \<Rightarrow> (not_found, w)
         | Inr (userInfo # _) \<Rightarrow>
     (let (res, w) = sequelize_query (Select SELECT_preview_records
                       (preview_records_sql P replacements)) w
      in case res of
           Inl e \<Rightarrow> (internal_error, w)
         | Inr previewRecords \<Rightarrow>
     (let (res, w) = sequelize_query (Select SELECT_download_records
                       (download_records_sql P replacements)) w
      in case res of
           Inl e \<Rightarrow> (internal_error, w)
         | Inr downloadRecords \<Rightarrow>
     (let (res, w) = sequelize_query (Select SELECT_login_records
                       (login_records_sql P replacements)) w
      in case res of
           Inl e \<Rightarrow> (internal_error, w)
         | Inr loginRecords \<Rightarrow>
             (json (User_detail userInfo previewRecords downloadRecords loginRecords), w)))))"

section \<open>GET /registrations\<close>

text \<open>
  \<^verbatim>\<open>SELECT DATE(created_at) as date, COUNT(*) as count FROM users ${dateFilter}
  GROUP BY DATE(created_at) ORDER BY date DESC\<close>
\<close>

definition registrations_sql ::
  "pg \<Rightarrow> user tok list \<Rightarrow> replacements \<Rightarrow> db \<Rightarrow> sql_error + registration_row list" where
  "registrations_sql P dateFilter rs d =
     (case rows_where P rs dateFilter (users d) of
        Inl e \<Rightarrow> Inl e
      | Inr rows \<Rightarrow>
          Inr (order_by_desc reg_date
                (map (\<lambda>k. \<lparr>reg_date = k,
                           reg_count = count_rows (filter (\<lambda>u. DATE (u_created_at u) = k) rows)\<rparr>)
                     (group_keys (\<lambda>u. DATE (u_created_at u)) rows))))"

definition get_registrations :: "pg \<Rightarrow> request \<Rightarrow> world \<Rightarrow> response \<times> world" where
  "get_registrations P req w =
     (let dateFrom = q_dateFrom req; dateTo = q_dateTo req;
          replacements = Map.empty;
          dateFilter = [];
          (dateFilter, replacements) =
            when_truthy dateFrom
              (\<lambda>s (f, r). (f @ [Kw_WHERE, Cond (Ge u_created_at ''dateFrom'')],
                           r(''dateFrom'' \<mapsto> JStr s)))
              (dateFilter, replacements);
          (dateFilter, replacements) =
            when_truthy dateTo
              (\<lambda>s (f, r). (f @ (if f \<noteq> [] then [Kw_AND] else [Kw_WHERE])
                              @ [Cond (Le u_created_at ''dateTo'')],
                           r(''dateTo'' \<mapsto> JStr s)))
              (dateFilter, replacements);
          (res, w) = sequelize_query (Select SELECT_registrations
                       (registrations_sql P dateFilter replacements)) w
      in case res of
           Inl e \<Rightarrow> (internal_error, w)
         | Inr results \<Rightarrow> (json (Registrations results), w))"

section \<open>GET /logins\<close>

text \<open>
  \<^verbatim>\<open>SELECT DATE(login_time) as date, COUNT(DISTINCT user_id) as unique_users,
  COUNT(*) as total_logins FROM login_logs ${dateFilter} AND login_success = true
  GROUP BY DATE(login_time) ORDER BY date DESC\<close>
\<close>

definition logins_sql ::
  "pg \<Rightarrow> login_log tok list \<Rightarrow> replacements \<Rightarrow> db \<Rightarrow> sql_error + login_row list" where
  "logins_sql P dateFilter rs d =
     (case rows_where P rs (dateFilter @ [Kw_AND, Cond (Is_true ll_login_success)])
             (login_logs d) of
        Inl e \<Rightarrow> Inl e
      | Inr rows \<Rightarrow>
          Inr (order_by_desc lg_date
                (map (\<lambda>k. let grp = filter (\<lambda>l. DATE (ll_login_time l) = k) rows
                          in \<lparr>lg_date = k,
                              lg_unique_users = count_distinct ll_user_id grp,
                              lg_total_logins = count_rows grp\<rparr>)
                     (group_keys (\<lambda>l. DATE (ll_login_time l)) rows))))"

definition get_logins :: "pg \<Rightarrow> request \<Rightarrow> world \<Rightarrow> response \<times> world" where
  "get_logins P req w =
     (let dateFrom = q_dateFrom req; dateTo = q_dateTo req;
          replacements = Map.empty;
          dateFilter = [];
          (dateFilter, replacements) =
            when_truthy dateFrom
              (\<lambda>s (f, r). (f @ [Kw_WHERE, Cond (Ge ll_login_time ''dateFrom'')],
                           r(''dateFrom'' \<mapsto> JStr s)))
              (dateFilter, replacements);
          (dateFilter, replacements) =
            when_truthy dateTo
              (\<lambda>s (f, r). (f @ (if f \<noteq> [] then [Kw_AND] else [Kw_WHERE])
                              @ [Cond (Le ll_login_time ''dateTo'')],
                           r(''dateTo'' \<mapsto> JStr s)))
              (dateFilter, replacements);
          (res, w) = sequelize_query (Select SELECT_logins (logins_sql P dateFilter replacements)) w
      in case res of
           Inl e \<Rightarrow> (internal_error, w)
         | Inr results \<Rightarrow> (json (Logins results), w))"

section \<open>GET /online-duration\<close>

text \<open>\<^verbatim>\<open>filters.join(' AND ')\<close>\<close>

fun join_AND :: "'r cond list \<Rightarrow> 'r tok list" where
  "join_AND [] = []"
| "join_AND [c] = [Cond c]"
| "join_AND (c # cs) = Cond c # Kw_AND # join_AND cs"

text \<open>
  \<^verbatim>\<open>SUM\<close> skips \<^verbatim>\<open>NULL\<close>s and is \<^verbatim>\<open>NULL\<close> when nothing is left. \<^verbatim>\<open>ORDER BY ... DESC\<close> puts
  \<^verbatim>\<open>NULL\<close> first.
\<close>

definition sql_sum :: "int option list \<Rightarrow> int option" where
  "sql_sum vs = (case List.map_filter id vs of [] \<Rightarrow> None | xs \<Rightarrow> Some (sum_list xs))"

fun nulls_first :: "int option \<Rightarrow> int \<times> int" where
  "nulls_first None = (1, 0)"
| "nulls_first (Some v) = (0, v)"

text \<open>
  \<^verbatim>\<open>SELECT username, DATE(login_time) as date, SUM(session_duration) as total_seconds,
  COUNT(*) as session_count ... GROUP BY username, DATE(login_time)
  ORDER BY date DESC, total_seconds DESC\<close>, on the rows the \<^verbatim>\<open>WHERE\<close> clause lets through.
\<close>

definition duration_rows_of :: "login_log list \<Rightarrow> duration_row list" where
  "duration_rows_of rows =
     order_by_desc (\<lambda>r. (od_date r, nulls_first (od_total_seconds r)))
       (map (\<lambda>(name, k).
               let grp = filter (\<lambda>l. ll_username l = name \<and> DATE (ll_login_time l) = k) rows
               in \<lparr>od_username = name, od_date = k,
                   od_total_seconds = sql_sum (map ll_session_duration grp),
                   od_session_count = count_rows grp\<rparr>)
            (group_keys (\<lambda>l. (ll_username l, DATE (ll_login_time l))) rows))"

text \<open>\<^verbatim>\<open>... FROM login_logs ${whereClause} GROUP BY ...\<close>\<close>

definition online_duration_sql ::
  "pg \<Rightarrow> login_log tok list \<Rightarrow> replacements \<Rightarrow> db \<Rightarrow> sql_error + duration_row list" where
  "online_duration_sql P whereClause rs d =
     (case rows_where P rs whereClause (login_logs d) of
        Inl e \<Rightarrow> Inl e
      | Inr rows \<Rightarrow> Inr (duration_rows_of rows))"

definition get_online_duration :: "pg \<Rightarrow> request \<Rightarrow> world \<Rightarrow> response \<times> world" where
  "get_online_duration P req w =
     (let userId = q_userId req; dateFrom = q_dateFrom req; dateTo = q_dateTo req;
          replacements = Map.empty;
          filters = [Not_null ll_session_duration];
          (filters, replacements) =
            when_truthy userId
              (\<lambda>s (f, r). (f @ [Eq_id ll_user_id ''userId''], r(''userId'' \<mapsto> JStr s)))
              (filters, replacements);
          (filters, replacements) =
            when_truthy dateFrom
              (\<lambda>s (f, r). (f @ [Ge ll_login_time ''dateFrom''], r(''dateFrom'' \<mapsto> JStr s)))
              (filters, replacements);
          (filters, replacements) =
            when_truthy dateTo
              (\<lambda>s (f, r). (f @ [Le ll_login_time ''dateTo''], r(''dateTo'' \<mapsto> JStr s)))
              (filters, replacements);
          whereClause = (if length filters > 0 then Kw_WHERE # join_AND filters else []);
          (res, w) = sequelize_query (Select SELECT_online_duration
                       (online_duration_sql P whereClause replacements)) w
      in case res of
           Inl e \<Rightarrow> (internal_error, w)
         | Inr results \<Rightarrow> (json (Online_duration results), w))"

section \<open>GET /overview\<close>

text \<open>\<^verbatim>\<open>SELECT COUNT(*) as total_users FROM users ${userDateFilter}\<close>\<close>

definition total_users_sql :: "pg \<Rightarrow> user tok list \<Rightarrow> replacements \<Rightarrow> db \<Rightarrow> sql_error + int" where
  "total_users_sql P userDateFilter rs d =
     (case rows_where P rs userDateFilter (users d) of
        Inl e \<Rightarrow> Inl e
      | Inr rows \<Rightarrow> Inr (count_rows rows))"

text \<open>
  \<^verbatim>\<open>SELECT COUNT(DISTINCT user_id) as active_users
  FROM login_logs ${loginDateFilter} AND login_success = true\<close>
\<close>

definition active_users_sql ::
  "pg \<Rightarrow> login_log tok list \<Rightarrow> replacements \<Rightarrow> db \<Rightarrow> sql_error + int" where
  "active_users_sql P loginDateFilter rs d =
     (case rows_where P rs (loginDateFilter @ [Kw_AND, Cond (Is_true ll_login_success)])
             (login_logs d) of
        Inl e \<Rightarrow> Inl e
      | Inr rows \<Rightarrow> Inr (count_distinct ll_user_id rows))"

text \<open>
  \<^verbatim>\<open>SELECT COUNT(*) as total_previews
  FROM generations ${genDateFilter} ${genDateFilter ? 'AND' : 'WHERE'} generation_type = 'preview'\<close>
\<close>

definition total_previews_sql ::
  "pg \<Rightarrow> generation tok list \<Rightarrow> replacements \<Rightarrow> db \<Rightarrow> sql_error + int" where
  "total_previews_sql P genDateFilter rs d =
     (case rows_where P rs
             (genDateFilter @ (if genDateFilter \<noteq> [] then [Kw_AND] else [Kw_WHERE])
                @ [Cond (Eq_text g_generation_type ''preview'')])
             (generations d) of
        Inl e \<Rightarrow> Inl e
      | Inr rows \<Rightarrow> Inr (count_rows rows))"

text \<open>
  \<^verbatim>\<open>SELECT COUNT(*) as total_downloads
  FROM generations ${genDateFilter} ${genDateFilter ? 'AND' : 'WHERE'}
  (generation_type = 'paid' OR is_paid = true)\<close>
\<close>

definition total_downloads_sql ::
  "pg \<Rightarrow> generation tok list \<Rightarrow> replacements \<Rightarrow> db \<Rightarrow> sql_error + int" where
  "total_downloads_sql P genDateFilter rs d =
     (case rows_where P rs
             (genDateFilter @ (if genDateFilter \<noteq> [] then [Kw_AND] else [Kw_WHERE])
                @ [Cond (Or (Eq_text g_generation_type ''paid'') (Is_true g_is_paid))])
             (generations d) of
        Inl e \<Rightarrow> Inl e
      | Inr rows \<Rightarrow> Inr (count_rows rows))"

text \<open>
  \<^verbatim>\<open>SELECT COUNT(*) as total_logins
  FROM login_logs ${loginDateFilter} AND login_success = true\<close>
\<close>

definition total_logins_sql ::
  "pg \<Rightarrow> login_log tok list \<Rightarrow> replacements \<Rightarrow> db \<Rightarrow> sql_error + int" where
  "total_logins_sql P loginDateFilter rs d =
     (case rows_where P rs (loginDateFilter @ [Kw_AND, Cond (Is_true ll_login_success)])
             (login_logs d) of
        Inl e \<Rightarrow> Inl e
      | Inr rows \<Rightarrow> Inr (count_rows rows))"

text \<open>
  \<^verbatim>\<open>const and = dateFrom ? ' AND' : ' WHERE'\<close>. The same text is appended to the filters
  of three different tables, so it is a definition of its own.
\<close>

definition and_kw :: "string option \<Rightarrow> 'r tok list" where
  "and_kw dateFrom = (if truthy dateFrom then [Kw_AND] else [Kw_WHERE])"

definition get_overview :: "pg \<Rightarrow> request \<Rightarrow> world \<Rightarrow> response \<times> world" where
  "get_overview P req w =
     (let dateFrom = q_dateFrom req; dateTo = q_dateTo req;
          replacements = Map.empty;
          userDateFilter = []; genDateFilter = []; loginDateFilter = [];
          (userDateFilter, genDateFilter, loginDateFilter, replacements) =
            when_truthy dateFrom
              (\<lambda>s (uf, gf, lf, r).
                 ([Kw_WHERE, Cond (Ge u_created_at ''dateFrom'')],
                  [Kw_WHERE, Cond (Ge g_created_at ''dateFrom'')],
                  [Kw_WHERE, Cond (Ge ll_login_time ''dateFrom'')],
                  r(''dateFrom'' \<mapsto> JStr s)))
              (userDateFilter, genDateFilter, loginDateFilter, replacements);
          (userDateFilter, genDateFilter, loginDateFilter, replacements) =
            when_truthy dateTo
              (\<lambda>s (uf, gf, lf, r).
                 (uf @ and_kw dateFrom @ [Cond (Le u_created_at ''dateTo'')],
                  gf @ and_kw dateFrom @ [Cond (Le g_created_at ''dateTo'')],
                  lf @ and_kw dateFrom @ [Cond (Le ll_login_time ''dateTo'')],
                  r(''dateTo'' \<mapsto> JStr s)))
              (userDateFilter, genDateFilter, loginDateFilter, replacements);
          (res, w) = sequelize_query (Select SELECT_total_users
                       (total_users_sql P userDateFilter replacements)) w
      in case res of
           Inl e \<Rightarrow> (internal_error, w)
         | Inr total_users \<Rightarrow>
     (let (res, w) = sequelize_query (Select SELECT_active_users
                       (active_users_sql P loginDateFilter replacements)) w
      in case res of
           Inl e \<Rightarrow> (internal_error, w)
         | Inr active_users \<Rightarrow>
     (let (res, w) = sequelize_query (Select SELECT_total_previews
                       (total_previews_sql P genDateFilter replacements)) w
      in case res of
           Inl e \<Rightarrow> (internal_error, w)
         | Inr total_previews \<Rightarrow>
     (let (res, w) = sequelize_query (Select SELECT_total_downloads
                       (total_downloads_sql P genDateFilter replacements)) w
      in case res of
           Inl e \<Rightarrow> (internal_error, w)
         | Inr total_downloads \<Rightarrow>
     (let (res, w) = sequelize_query (Select SELECT_total_logins
                       (total_logins_sql P loginDateFilter replacements)) w
      in case res of
           Inl e \<Rightarrow> (internal_error, w)
         | Inr total_logins \<Rightarrow>
             (json (Overview \<lparr>ov_total_users = total_users,
                              ov_active_users = active_users,
                              ov_total_previews = total_previews,
                              ov_total_downloads = total_downloads,
                              ov_total_logins = total_logins\<rparr>), w))))))"

section \<open>Vocabulary of the properties\<close>

text \<open>
  The bound a date parameter puts on a timestamp: none when the parameter is absent or
  empty, the timestamp the database reads from it otherwise. \<open>None\<close> when the database
  rejects the text.
\<close>

definition date_bound :: "pg \<Rightarrow> string option \<Rightarrow> timestamp option option" where
  "date_bound P x =
     (case x of
        None \<Rightarrow> Some None
      | Some s \<Rightarrow>
          if s = [] then Some None
          else (case timestamp_in P s of None \<Rightarrow> None | Some t \<Rightarrow> Some (Some t)))"

text \<open>A timestamp lies in the range of the two optional bounds.\<close>

definition in_range :: "timestamp option \<Rightarrow> timestamp option \<Rightarrow> timestamp \<Rightarrow> bool" where
  "in_range lo hi t =
     ((case lo of None \<Rightarrow> True | Some a \<Rightarrow> a \<le> t) \<and>
      (case hi of None \<Rightarrow> True | Some b \<Rightarrow> t \<le> b))"

text \<open>The generation rows created in a range.\<close>

definition generations_in :: "timestamp option \<Rightarrow> timestamp option \<Rightarrow> db \<Rightarrow> generation list" where
  "generations_in lo hi d = filter (\<lambda>g. in_range lo hi (g_created_at g)) (generations d)"

text \<open>
  What a detail page shows of a generation and of a login, in words: a preview record
  and a download record carry the id, creation time, status and processing time (and the
  payment amount) of the generation, and the id and name of its template when the
  generation has a template and that template exists; a login record carries the five
  listed columns of the login.
\<close>

definition template_shown :: "db \<Rightarrow> generation \<Rightarrow> int option \<Rightarrow> string option \<Rightarrow> bool" where
  "template_shown d g shown_id shown_name \<longleftrightarrow>
     (if \<exists>t \<in> set (templates d). g_template_id g = Some (t_id t)
      then \<exists>t \<in> set (templates d).
             g_template_id g = Some (t_id t) \<and> shown_id = Some (t_id t)
             \<and> shown_name = Some (t_name t)
      else shown_id = None \<and> shown_name = None)"

definition preview_shows :: "db \<Rightarrow> generation \<Rightarrow> preview_record \<Rightarrow> bool" where
  "preview_shows d g r \<longleftrightarrow>
     pr_id r = g_id g \<and> pr_created_at r = g_created_at g \<and> pr_status r = g_status g
     \<and> pr_processing_time r = g_processing_time g
     \<and> template_shown d g (pr_template_id r) (pr_template_name r)"

definition download_shows :: "db \<Rightarrow> generation \<Rightarrow> download_record \<Rightarrow> bool" where
  "download_shows d g r \<longleftrightarrow>
     dr_id r = g_id g \<and> dr_created_at r = g_created_at g \<and> dr_status r = g_status g
     \<and> dr_payment_amount r = g_payment_amount g
     \<and> dr_processing_time r = g_processing_time g
     \<and> template_shown d g (dr_template_id r) (dr_template_name r)"

definition login_shows :: "login_log \<Rightarrow> login_record \<Rightarrow> bool" where
  "login_shows l r \<longleftrightarrow>
     lr_login_time r = ll_login_time l \<and> lr_logout_time r = ll_logout_time l
     \<and> lr_session_duration r = ll_session_duration l
     \<and> lr_ip_address r = ll_ip_address l \<and> lr_user_agent r = ll_user_agent l"

text \<open>
  \<open>chosen\<close> is the \<open>n\<close> most recent of the rows \<open>all\<close>: it has \<open>n\<close> of them (all of
  them when there are fewer), newest first, and no row left out is newer than one
  in \<open>chosen\<close>. The records \<open>out\<close> show the \<open>n\<close> most recent rows when they show, one
  by one and in this order, such a choice.
\<close>

definition most_recent :: "nat \<Rightarrow> ('r \<Rightarrow> timestamp) \<Rightarrow> 'r list \<Rightarrow> 'r list \<Rightarrow> bool" where
  "most_recent n key all chosen \<longleftrightarrow>
     length chosen = min n (length all) \<and>
     sorted_wrt (\<lambda>a b. key b \<le> key a) chosen \<and>
     (\<exists>rest. mset (chosen @ rest) = mset all \<and>
             (\<forall>x \<in> set chosen. \<forall>y \<in> set rest. key y \<le> key x))"

definition shows_most_recent ::
  "nat \<Rightarrow> ('s \<Rightarrow> 'r \<Rightarrow> bool) \<Rightarrow> ('s \<Rightarrow> timestamp) \<Rightarrow> 's list \<Rightarrow> 'r list \<Rightarrow> bool" where
  "shows_most_recent n shows key all out \<longleftrightarrow>
     (\<exists>chosen. most_recent n key all chosen \<and> list_all2 shows chosen out)"

text \<open>
  The user a \<^verbatim>\<open>userId\<close> query parameter selects: none when the parameter is absent or
  empty, the id the database reads from it otherwise. \<open>None\<close> when the database rejects
  the text.
\<close>

definition id_bound :: "pg \<Rightarrow> string option \<Rightarrow> int option option" where
  "id_bound P x =
     (case x of
        None \<Rightarrow> Some None
      | Some s \<Rightarrow>
          if s = [] then Some None
          else (case id_in P s of None \<Rightarrow> None | Some i \<Rightarrow> Some (Some i)))"

text \<open>
  The login-log rows that count for the online duration, in the words of the claim: the
  session duration is not null and the row matches the optional user and date filters.
  The success flag of the row plays no part.
\<close>

definition counts_for_duration ::
  "int option \<Rightarrow> timestamp option \<Rightarrow> timestamp option \<Rightarrow> login_log \<Rightarrow> bool" where
  "counts_for_duration uid lo hi l \<longleftrightarrow>
     ll_session_duration l \<noteq> None \<and>
     (case uid of None \<Rightarrow> True | Some i \<Rightarrow> ll_user_id l = i) \<and>
     in_range lo hi (ll_login_time l)"

definition seconds_of :: "int option \<Rightarrow> int" where
  "seconds_of v = (case v of None \<Rightarrow> 0 | Some s \<Rightarrow> s)"

text \<open>The world in which the rows of failed login attempts are deleted.\<close>

definition successful_only :: "world \<Rightarrow> world" where
  "successful_only w =
     w\<lparr>database := (database w)\<lparr>login_logs := filter ll_login_success (login_logs (database w))\<rparr>\<rparr>"








text \<open>
  A user row matches a \<^verbatim>\<open>userId\<close> when the database reads the \<^verbatim>\<open>userId\<close> as the id of
  the row.
\<close>

definition matches_user :: "pg \<Rightarrow> string \<Rightarrow> user \<Rightarrow> bool" where
  "matches_user P userId u \<longleftrightarrow> id_in P userId = Some (u_id u)"

section \<open>Example data\<close>

definition P0 :: pg where
  "P0 = \<lparr>timestamp_in =
            (\<lambda>s. if s = ''1970-01-01'' then Some 0
                 else if s = ''1970-01-03'' then Some 172800 else None),
          id_in =
            (\<lambda>s. if s = ''1'' then Some 1 else if s = ''2'' then Some 2
                 else if s = ''7'' then Some 7 else None)\<rparr>"

definition mk_user :: "int \<Rightarrow> string \<Rightarrow> string \<Rightarrow> timestamp \<Rightarrow> user" where
  "mk_user i n e t =
     \<lparr>u_id = i, u_username = n, u_email = e, u_created_at = t, u_last_login_at = None,
      u_is_active = True, u_is_admin = False, u_is_vip = False, u_vip_expiry = None,
      u_free_previews = 3, u_balance = 0, u_subscription_type = None\<rparr>"

definition mk_gen :: "int \<Rightarrow> int \<Rightarrow> string \<Rightarrow> bool \<Rightarrow> timestamp \<Rightarrow> generation" where
  "mk_gen i u ty paid t =
     \<lparr>g_id = i, g_user_id = u, g_template_id = Some 1, g_generation_type = ty,
      g_is_paid = paid, g_status = ''completed'', g_created_at = t,
      g_processing_time = None, g_payment_amount = None\<rparr>"

definition mk_login :: "int \<Rightarrow> int \<Rightarrow> string \<Rightarrow> timestamp \<Rightarrow> bool \<Rightarrow> int option \<Rightarrow> login_log" where
  "mk_login i u n t ok dur =
     \<lparr>ll_id = i, ll_user_id = u, ll_username = n, ll_login_time = t, ll_logout_time = None,
      ll_login_success = ok, ll_session_duration = dur, ll_ip_address = ''127.0.0.1'',
      ll_user_agent = ''curl''\<rparr>"

definition d0 :: db where
  "d0 = \<lparr>users = [mk_user 1 ''alice'' ''alice@example.org'' 100,
                   mk_user 2 ''ALICIA'' ''bob@example.org'' 90000],
          generations = [mk_gen 1 1 ''preview'' True 50,
                         mk_gen 2 1 ''paid'' True 60,
                         mk_gen 3 2 ''preview'' False 100000],
          login_logs = [mk_login 1 1 ''alice'' 10 True (Some 30),
                        mk_login 2 1 ''alice'' 20 False (Some 40),
                        mk_login 3 2 ''ALICIA'' 90000 True None],
          templates = [\<lparr>t_id = 1, t_name = ''portrait''\<rparr>]\<rparr>"

definition w0 :: world where
  "w0 = \<lparr>database = d0, issued = []\<rparr>"

text \<open>A request without any parameter, and the same request with a lower date bound.\<close>

definition no_params :: request where
  "no_params = \<lparr>q_page = None, q_limit = None, q_search = None, q_dateFrom = None,
                 q_dateTo = None, q_userId = None, p_userId = []\<rparr>"

definition since_epoch :: request where
  "since_epoch = no_params\<lparr>q_dateFrom := Some ''1970-01-01''\<rparr>"

section \<open>Auxiliary facts\<close>

lemma when_truthy_simps:
  "\<not> truthy x \<Longrightarrow> when_truthy x f st = st"
  "s \<noteq> [] \<Longrightarrow> when_truthy (Some s) f st = f s st"
  by (cases x; simp add: when_truthy_def)+

lemma date_bound_cases:
  assumes "date_bound P x = Some b"
  shows "(\<not> truthy x \<and> b = None) \<or>
         (\<exists>s t. x = Some s \<and> s \<noteq> [] \<and> timestamp_in P s = Some t \<and> b = Some t)"
proof (cases "truthy x")
  case False
  then have "b = None"
    using assms by (cases x; auto simp: date_bound_def)
  with False show ?thesis by simp
next
  case True
  then obtain s where s: "x = Some s" "s \<noteq> []" by (cases x) auto
  with assms obtain t where "timestamp_in P s = Some t" "b = Some t"
    by (cases "timestamp_in P s") (auto simp: date_bound_def)
  with s show ?thesis by simp
qed

lemma sum_list_indicator:
  "distinct ks \<Longrightarrow>
   sum_list (map (\<lambda>k. if a = k then (1::int) else 0) ks) = (if a \<in> set ks then 1 else 0)"
  by (induction ks) auto

lemma sum_group_counts:
  "distinct ks \<Longrightarrow> key ` set rows \<subseteq> set ks \<Longrightarrow>
   sum_list (map (\<lambda>k. count_rows (filter (\<lambda>r. key r = k) rows)) ks) = int (length rows)"
proof (induction rows)
  case Nil
  then show ?case by (simp add: count_rows_def)
next
  case (Cons r rows)
  have "sum_list (map (\<lambda>k. count_rows (filter (\<lambda>r. key r = k) (r # rows))) ks)
      = sum_list (map (\<lambda>k. (if key r = k then 1 else 0)
                            + count_rows (filter (\<lambda>r. key r = k) rows)) ks)"
    by (rule arg_cong[where f=sum_list]) (simp add: count_rows_def)
  also have "\<dots> = sum_list (map (\<lambda>k. if key r = k then 1 else 0) ks)
                 + sum_list (map (\<lambda>k. count_rows (filter (\<lambda>r. key r = k) rows)) ks)"
    by (simp add: sum_list_addf)
  also have "\<dots> = 1 + int (length rows)"
    using Cons by (simp add: sum_list_indicator)
  finally show ?case by simp
qed

lemma sum_list_order_by_desc:
  "sum_list (map f (order_by_desc key rows)) = sum_list (map (f :: _ \<Rightarrow> int) rows)"
proof -
  have "mset (order_by_desc key rows) = mset rows"
    by (simp add: order_by_desc_def)
  then have "mset (map f (order_by_desc key rows)) = mset (map f rows)"
    by simp
  then show ?thesis by (metis sum_mset_sum_list)
qed

lemma set_order_by_desc: "set (order_by_desc key rows) = set rows"
  by (simp add: order_by_desc_def)

section \<open>GET /registrations: the counts of a range\<close>

lemma registrations_rows:
  assumes "date_bound P (q_dateFrom req) = Some lo" "date_bound P (q_dateTo req) = Some hi"
  shows "fst (get_registrations P req w) =
     json (Registrations (order_by_desc reg_date
        (map (\<lambda>k. \<lparr>reg_date = k,
                   reg_count = count_rows (filter (\<lambda>u. DATE (u_created_at u) = k)
                       (filter (\<lambda>u. in_range lo hi (u_created_at u)) (users (database w))))\<rparr>)
             (group_keys (\<lambda>u. DATE (u_created_at u))
                (filter (\<lambda>u. in_range lo hi (u_created_at u)) (users (database w)))))))"
  using date_bound_cases[OF assms(1)] date_bound_cases[OF assms(2)]
  apply (elim disjE conjE exE)
     apply (simp_all add: get_registrations_def when_truthy_simps registrations_sql_def
      rows_where_def sequelize_query_def in_range_def)
  done

text \<open>
  C6. For every date range the database accepts, \<^verbatim>\<open>GET /registrations\<close> answers 200 with
  rows whose counts are non-negative integers, and the counts of all days add up to the
  number of users whose \<^verbatim>\<open>created_at\<close> lies in the range.
\<close>

theorem registrations_counts:
  assumes "date_bound P (q_dateFrom req) = Some lo" "date_bound P (q_dateTo req) = Some hi"
  shows "\<exists>rows. fst (get_registrations P req w) = \<lparr>status = 200, body = Registrations rows\<rparr>
           \<and> (\<forall>r \<in> set rows. 0 \<le> reg_count r)
           \<and> sum_list (map reg_count rows) =
               int (length (filter (\<lambda>u. in_range lo hi (u_created_at u)) (users (database w))))"
proof -
  let ?us = "filter (\<lambda>u. in_range lo hi (u_created_at u)) (users (database w))"
  let ?key = "\<lambda>u. DATE (u_created_at u)"
  let ?rows = "map (\<lambda>k. \<lparr>reg_date = k, reg_count = count_rows (filter (\<lambda>u. ?key u = k) ?us)\<rparr>)
                 (group_keys ?key ?us)"
  have resp: "fst (get_registrations P req w) =
                \<lparr>status = 200, body = Registrations (order_by_desc reg_date ?rows)\<rparr>"
    using registrations_rows[OF assms] by (simp add: json_def)
  have nonneg: "\<forall>r \<in> set (order_by_desc reg_date ?rows). 0 \<le> reg_count r"
    by (auto simp: set_order_by_desc count_rows_def)
  have "sum_list (map reg_count (order_by_desc reg_date ?rows)) = sum_list (map reg_count ?rows)"
    by (rule sum_list_order_by_desc)
  also have "\<dots> = sum_list (map (\<lambda>k. count_rows (filter (\<lambda>u. ?key u = k) ?us)) (group_keys ?key ?us))"
    by (simp add: comp_def)
  also have "\<dots> = int (length ?us)"
    by (rule sum_group_counts) (simp_all add: group_keys_def)
  finally show ?thesis using resp nonneg by blast
qed

theorem registrations_counts_witness:
  "date_bound P0 (q_dateFrom since_epoch) = Some (Some 0)
   \<and> date_bound P0 (q_dateTo since_epoch) = Some None
   \<and> (\<exists>rows. fst (get_registrations P0 since_epoch w0) = \<lparr>status = 200, body = Registrations rows\<rparr>
           \<and> (\<forall>r \<in> set rows. 0 \<le> reg_count r)
           \<and> sum_list (map reg_count rows) = 2)"
proof -
  have lo: "date_bound P0 (q_dateFrom since_epoch) = Some (Some 0)"
    by (simp add: date_bound_def since_epoch_def no_params_def P0_def)
  have hi: "date_bound P0 (q_dateTo since_epoch) = Some None"
    by (simp add: date_bound_def since_epoch_def no_params_def)
  have n: "int (length (filter (\<lambda>u. in_range (Some 0) None (u_created_at u)) (users (database w0)))) = 2"
    by (simp add: w0_def d0_def mk_user_def in_range_def)
  show ?thesis
    using registrations_counts[OF lo hi, of w0] lo hi n by simp
qed

section \<open>GET /logins and GET /overview without a date\<close>

text \<open>
  The text \<^verbatim>\<open>AND login_success = true\<close> follows \<^verbatim>\<open>${dateFilter}\<close> directly. With an
  empty filter the statement reads \<^verbatim>\<open>FROM login_logs AND login_success = true\<close>,
  which is not SQL.
\<close>

lemma dangling_AND: "rows_where P rs ([] @ [Kw_AND, Cond c]) table = Inl Syntax_error"
  by (simp add: rows_where_def)

text \<open>
  C1. A request to \<^verbatim>\<open>GET /logins\<close> that supplies neither \<^verbatim>\<open>dateFrom\<close> nor \<^verbatim>\<open>dateTo\<close> is
  answered with status 500 and the fixed message, whatever the tables hold: the one
  statement the handler issues fails.
\<close>

theorem get_logins_without_dates:
  "get_logins P no_params w =
     (\<lparr>status = 500, body = Message Server_internal_error\<rparr>,
      w\<lparr>issued := issued w @ [SELECT_logins]\<rparr>)"
  by (simp add: get_logins_def no_params_def when_truthy_def logins_sql_def rows_where_def
      sequelize_query_def internal_error_def)

text \<open>
  C2. A request to \<^verbatim>\<open>GET /overview\<close> that supplies neither \<^verbatim>\<open>dateFrom\<close> nor \<^verbatim>\<open>dateTo\<close>
  is answered with status 500 and the fixed message: the count of the users succeeds, the
  count of the active users fails, and the remaining three statements are never issued.
\<close>

theorem get_overview_without_dates:
  "get_overview P no_params w =
     (\<lparr>status = 500, body = Message Server_internal_error\<rparr>,
      w\<lparr>issued := issued w @ [SELECT_total_users, SELECT_active_users]\<rparr>)"
  by (simp add: get_overview_def no_params_def when_truthy_def total_users_sql_def
      active_users_sql_def rows_where_def sequelize_query_def internal_error_def)

section \<open>GET /overview with a date range\<close>

lemma overview_fields:
  assumes "date_bound P (q_dateFrom req) = Some lo" "date_bound P (q_dateTo req) = Some hi"
    and "truthy (q_dateFrom req) \<or> truthy (q_dateTo req)"
  shows "fst (get_overview P req w) =
     json (Overview
       \<lparr>ov_total_users =
          count_rows (filter (\<lambda>u. in_range lo hi (u_created_at u)) (users (database w))),
        ov_active_users =
          count_distinct ll_user_id
            (filter (\<lambda>l. in_range lo hi (ll_login_time l) \<and> ll_login_success l)
               (login_logs (database w))),
        ov_total_previews =
          count_rows (filter (\<lambda>g. in_range lo hi (g_created_at g) \<and> is_preview g)
             (generations (database w))),
        ov_total_downloads =
          count_rows (filter (\<lambda>g. in_range lo hi (g_created_at g) \<and> is_download g)
             (generations (database w))),
        ov_total_logins =
          count_rows (filter (\<lambda>l. in_range lo hi (ll_login_time l) \<and> ll_login_success l)
             (login_logs (database w)))\<rparr>)"
  using date_bound_cases[OF assms(1)] date_bound_cases[OF assms(2)] assms(3)
  apply (elim disjE conjE exE)
         apply (simp_all add: get_overview_def when_truthy_simps and_kw_def
      total_users_sql_def active_users_sql_def total_previews_sql_def total_downloads_sql_def
      total_logins_sql_def rows_where_def sequelize_query_def in_range_def
      is_preview_def is_download_def conj_ac)
  done

lemma length_filter_union_inter:
  "length (filter p xs) + length (filter q xs) =
   length (filter (\<lambda>x. p x \<or> q x) xs) + length (filter (\<lambda>x. p x \<and> q x) xs)"
  by (induction xs) auto

lemma previews_plus_downloads:
  "count_rows (filter (\<lambda>g. r g \<and> is_download g) gs) + count_rows (filter (\<lambda>g. r g \<and> is_preview g) gs)
   \<le> count_rows (filter r gs) + count_rows (filter (\<lambda>g. r g \<and> is_preview g \<and> g_is_paid g) gs)"
proof -
  let ?p = "\<lambda>g. r g \<and> is_download g" and ?q = "\<lambda>g. r g \<and> is_preview g"
  have inter: "(\<lambda>g. ?p g \<and> ?q g) = (\<lambda>g. r g \<and> is_preview g \<and> g_is_paid g)"
    by (auto simp: fun_eq_iff is_download_def is_preview_def)
  have "length (filter (\<lambda>g. ?p g \<or> ?q g) gs) \<le> length (filter r gs)"
    by (induction gs) auto
  moreover have "length (filter ?p gs) + length (filter ?q gs) =
      length (filter (\<lambda>g. ?p g \<or> ?q g) gs) + length (filter (\<lambda>g. r g \<and> is_preview g \<and> g_is_paid g) gs)"
    using length_filter_union_inter[of ?p gs ?q] by (simp only: inter)
  ultimately show ?thesis by (simp add: count_rows_def)
qed

text \<open>
  C3 as stated fails: a generation row of type \<^verbatim>\<open>preview\<close> with \<^verbatim>\<open>is_paid = true\<close> is counted
  among the previews and among the downloads. In the example data, two of the three rows
  since the epoch are previews and two are downloads.
\<close>

theorem overview_sum_exceeds_generations:
  "fst (get_overview P0 since_epoch w0) =
     \<lparr>status = 200,
      body = Overview \<lparr>ov_total_users = 2, ov_active_users = 2, ov_total_previews = 2,
                       ov_total_downloads = 2, ov_total_logins = 2\<rparr>\<rparr>
   \<and> int (length (generations_in (Some 0) None (database w0))) = 3
   \<and> \<not> ((2::int) + 2 \<le> 3)"
  by (simp add: get_overview_def since_epoch_def no_params_def when_truthy_def and_kw_def
      total_users_sql_def active_users_sql_def total_previews_sql_def total_downloads_sql_def
      total_logins_sql_def rows_where_def sequelize_query_def in_range_def json_def
      generations_in_def
      P0_def w0_def d0_def mk_user_def mk_gen_def mk_login_def count_rows_def count_distinct_def)

text \<open>
  C3, amended. For every database state and every date range for which \<^verbatim>\<open>GET /overview\<close>
  answers (at least one bound is given and the database accepts the bounds),
  \<^verbatim>\<open>total_downloads + total_previews\<close> is at most the number of generation rows created in
  the range plus the number of those rows that are of type \<^verbatim>\<open>preview\<close> and marked paid.
\<close>

theorem overview_previews_downloads_bound:
  assumes "date_bound P (q_dateFrom req) = Some lo" "date_bound P (q_dateTo req) = Some hi"
    and "truthy (q_dateFrom req) \<or> truthy (q_dateTo req)"
  shows "\<exists>ov. fst (get_overview P req w) = \<lparr>status = 200, body = Overview ov\<rparr>
          \<and> ov_total_downloads ov + ov_total_previews ov
             \<le> int (length (generations_in lo hi (database w)))
               + int (length (filter (\<lambda>g. g_generation_type g = ''preview'' \<and> g_is_paid g)
                               (generations_in lo hi (database w))))"
proof -
  let ?r = "\<lambda>g. in_range lo hi (g_created_at g)"
  let ?gs = "generations (database w)"
  have paid_previews:
    "filter (\<lambda>g. g_generation_type g = ''preview'' \<and> g_is_paid g) (generations_in lo hi (database w))
       = filter (\<lambda>g. ?r g \<and> is_preview g \<and> g_is_paid g) ?gs"
    by (simp add: generations_in_def is_preview_def)
  have in_range_rows: "generations_in lo hi (database w) = filter ?r ?gs"
    by (simp add: generations_in_def)
  have "count_rows (filter (\<lambda>g. ?r g \<and> is_download g) ?gs)
          + count_rows (filter (\<lambda>g. ?r g \<and> is_preview g) ?gs)
        \<le> count_rows (filter ?r ?gs)
          + count_rows (filter (\<lambda>g. ?r g \<and> is_preview g \<and> g_is_paid g) ?gs)"
    by (rule previews_plus_downloads)
  then show ?thesis
    unfolding overview_fields[OF assms] json_def paid_previews in_range_rows count_rows_def
    by (simp add: is_preview_def)
qed

theorem overview_previews_downloads_bound_witness:
  "date_bound P0 (q_dateFrom since_epoch) = Some (Some 0)
   \<and> date_bound P0 (q_dateTo since_epoch) = Some None
   \<and> truthy (q_dateFrom since_epoch)
   \<and> (\<exists>ov. fst (get_overview P0 since_epoch w0) = \<lparr>status = 200, body = Overview ov\<rparr>
          \<and> ov_total_downloads ov + ov_total_previews ov \<le> 3 + 1)"
proof -
  have lo: "date_bound P0 (q_dateFrom since_epoch) = Some (Some 0)"
    by (simp add: date_bound_def since_epoch_def no_params_def P0_def)
  have hi: "date_bound P0 (q_dateTo since_epoch) = Some None"
    by (simp add: date_bound_def since_epoch_def no_params_def)
  have tr: "truthy (q_dateFrom since_epoch)"
    by (simp add: since_epoch_def no_params_def)
  have n: "int (length (generations_in (Some 0) None (database w0))) = 3"
    by (simp add: w0_def d0_def mk_gen_def in_range_def generations_in_def)
  have m: "int (length (filter (\<lambda>g. g_generation_type g = ''preview'' \<and> g_is_paid g)
                          (generations_in (Some 0) None (database w0)))) = 1"
    by (simp add: w0_def d0_def mk_gen_def in_range_def generations_in_def)
  show ?thesis
    using overview_previews_downloads_bound[OF lo hi, of w0] lo hi tr n m by simp
qed

section \<open>GET /users/:userId\<close>

lemma most_recent_take_order_by_desc:
  "most_recent n key all (take n (order_by_desc key all))"
proof -
  let ?xs = "order_by_desc key all"
  have srt: "sorted_wrt (\<lambda>a b. key b \<le> key a) ?xs"
  proof -
    have "sorted (map key (sort_key key all))" by simp
    then have "sorted_wrt (\<lambda>a b. key a \<le> key b) (sort_key key all)"
      by (simp add: sorted_map)
    then show ?thesis
      unfolding order_by_desc_def by (simp add: sorted_wrt_rev)
  qed
  have split: "?xs = take n ?xs @ drop n ?xs" by simp
  have "sorted_wrt (\<lambda>a b. key b \<le> key a) (take n ?xs @ drop n ?xs)"
    using srt by simp
  then have parts: "sorted_wrt (\<lambda>a b. key b \<le> key a) (take n ?xs)"
    "\<forall>x \<in> set (take n ?xs). \<forall>y \<in> set (drop n ?xs). key y \<le> key x"
    unfolding sorted_wrt_append by blast+
  have len: "length (take n ?xs) = min n (length all)"
    by (simp add: order_by_desc_def min.commute)
  have "mset (take n ?xs @ drop n ?xs) = mset all"
    by (simp add: order_by_desc_def)
  with parts len show ?thesis
    unfolding most_recent_def by blast
qed

lemma user_info_rows:
  assumes "id_in P (p_userId req) = Some uid"
  shows "user_info_sql P [''userId'' \<mapsto> JStr (p_userId req)] d =
           Inr (map (user_info_of d) (filter (\<lambda>u. u_id u = uid) (users d)))"
  using assms by (simp add: user_info_sql_def rows_where_def)

lemma preview_records_rows:
  assumes "id_in P (p_userId req) = Some uid"
  shows "preview_records_sql P [''userId'' \<mapsto> JStr (p_userId req)] d =
           Inr (take 20 (order_by_desc pr_created_at
                  (map preview_record_of
                     (left_join_templates d
                        (filter (\<lambda>g. g_user_id g = uid \<and> g_generation_type g = ''preview'')
                           (generations d))))))"
  using assms by (simp add: preview_records_sql_def rows_where_def)

lemma download_records_rows:
  assumes "id_in P (p_userId req) = Some uid"
  shows "download_records_sql P [''userId'' \<mapsto> JStr (p_userId req)] d =
           Inr (take 20 (order_by_desc dr_created_at
                  (map download_record_of
                     (left_join_templates d
                        (filter (\<lambda>g. g_user_id g = uid
                                      \<and> (g_generation_type g = ''paid'' \<or> g_is_paid g))
                           (generations d))))))"
  using assms by (simp add: download_records_sql_def rows_where_def)

lemma login_records_rows:
  assumes "id_in P (p_userId req) = Some uid"
  shows "login_records_sql P [''userId'' \<mapsto> JStr (p_userId req)] d =
           Inr (take 30 (order_by_desc lr_login_time
                  (map login_record_of
                     (filter (\<lambda>l. ll_user_id l = uid \<and> ll_login_success l) (login_logs d)))))"
  using assms by (simp add: login_records_sql_def rows_where_def)

text \<open>Sorting the records of rows is sorting the rows.\<close>

lemma insort_key_map:
  "insort_key key (f x) (map f xs) = map f (insort_key (\<lambda>a. key (f a)) x xs)"
  by (induction xs) simp_all

lemma sort_key_map:
  "sort_key key (map f xs) = map f (sort_key (\<lambda>a. key (f a)) xs)"
  by (induction xs) (simp_all add: insort_key_map)

lemma order_by_desc_map:
  "order_by_desc key (map f xs) = map f (order_by_desc (\<lambda>a. key (f a)) xs)"
  by (simp add: order_by_desc_def sort_key_map rev_map)

lemma shows_most_recent_take_order_by_desc:
  assumes "\<And>a. shows a (f a)" "\<And>a. key' (f a) = key a"
  shows "shows_most_recent n shows key all (take n (order_by_desc key' (map f all)))"
proof -
  have "(\<lambda>a. key' (f a)) = key"
    using assms(2) by (simp add: fun_eq_iff)
  then have "take n (order_by_desc key' (map f all)) = map f (take n (order_by_desc key all))"
    by (simp add: order_by_desc_map take_map)
  moreover have "list_all2 shows (take n (order_by_desc key all))
                   (map f (take n (order_by_desc key all)))"
    using assms(1) by (simp add: list_all2_conv_all_nth)
  ultimately show ?thesis
    unfolding shows_most_recent_def using most_recent_take_order_by_desc by metis
qed

text \<open>
  With \<^verbatim>\<open>templates.id\<close> as the primary key, the left join pairs a generation with the one
  template of its \<^verbatim>\<open>template_id\<close>, or with none.
\<close>

lemma filter_primary_key:
  "distinct (map t_id ts) \<Longrightarrow>
   filter (\<lambda>t. x = Some (t_id t)) ts = (case find (\<lambda>t. x = Some (t_id t)) ts of
                                          None \<Rightarrow> [] | Some t \<Rightarrow> [t])"
proof (induction ts)
  case Nil
  then show ?case by simp
next
  case (Cons t ts)
  show ?case
  proof (cases "x = Some (t_id t)")
    case True
    then have "filter (\<lambda>t'. x = Some (t_id t')) ts = []"
      using Cons.prems by (auto simp: filter_empty_conv)
    with True show ?thesis by simp
  next
    case False
    with Cons show ?thesis by simp
  qed
qed

lemma left_join_one:
  assumes "distinct (map t_id ts)"
  shows "(case filter (\<lambda>t. x = Some (t_id t)) ts of
            [] \<Rightarrow> [(g, None)] | t # ts' \<Rightarrow> map (\<lambda>t. (g, Some t)) (t # ts'))
         = [(g, find (\<lambda>t. x = Some (t_id t)) ts)]"
  unfolding filter_primary_key[OF assms]
  by (cases "find (\<lambda>t. x = Some (t_id t)) ts") simp_all

lemma left_join_templates_primary_key:
  assumes "distinct (map t_id (templates d))"
  shows "left_join_templates d gs =
           map (\<lambda>g. (g, find (\<lambda>t. g_template_id g = Some (t_id t)) (templates d))) gs"
proof (induction gs)
  case Nil
  then show ?case by (simp add: left_join_templates_def)
next
  case (Cons g gs)
  have "left_join_templates d (g # gs) =
          (case filter (\<lambda>t. g_template_id g = Some (t_id t)) (templates d) of
             [] \<Rightarrow> [(g, None)] | t # ts' \<Rightarrow> map (\<lambda>t. (g, Some t)) (t # ts'))
          @ left_join_templates d gs"
    by (simp add: left_join_templates_def)
  then show ?case
    unfolding left_join_one[OF assms] Cons.IH by simp
qed

lemma template_shown_find:
  "template_shown d g
     (map_option t_id (find (\<lambda>t. g_template_id g = Some (t_id t)) (templates d)))
     (map_option t_name (find (\<lambda>t. g_template_id g = Some (t_id t)) (templates d)))"
proof (cases "find (\<lambda>t. g_template_id g = Some (t_id t)) (templates d)")
  case None
  then show ?thesis
    by (auto simp: template_shown_def find_None_iff)
next
  case (Some t)
  then have "t \<in> set (templates d)" "g_template_id g = Some (t_id t)"
    by (auto simp: find_Some_iff)
  with Some show ?thesis
    unfolding template_shown_def by auto
qed

lemma preview_shows_record:
  "preview_shows d g
     (preview_record_of (g, find (\<lambda>t. g_template_id g = Some (t_id t)) (templates d)))"
  by (simp add: preview_shows_def preview_record_of_def template_shown_find)

lemma download_shows_record:
  "download_shows d g
     (download_record_of (g, find (\<lambda>t. g_template_id g = Some (t_id t)) (templates d)))"
  by (simp add: download_shows_def download_record_of_def template_shown_find)

lemma login_shows_record: "login_shows l (login_record_of l)"
  by (simp add: login_shows_def login_record_of_def)

text \<open>
  C5 as stated fails for a \<^verbatim>\<open>userId\<close> that the database cannot read as an id: such a
  \<^verbatim>\<open>userId\<close> matches no user row, the lookup itself fails, and the answer is 500.
\<close>

theorem get_user_unreadable_id:
  "id_in P0 ''abc'' = None
   \<and> filter (matches_user P0 ''abc'') (users (database w0)) = []
   \<and> get_user P0 (no_params\<lparr>p_userId := ''abc''\<rparr>) w0 =
        (\<lparr>status = 500, body = Message Server_internal_error\<rparr>,
         w0\<lparr>issued := issued w0 @ [SELECT_user_info]\<rparr>)"
  by (simp add: P0_def matches_user_def get_user_def user_info_sql_def rows_where_def
      sequelize_query_def internal_error_def)

text \<open>
  C5, amended. For every \<^verbatim>\<open>userId\<close> that matches no user row, \<^verbatim>\<open>GET /users/:userId\<close>
  answers with a body that holds a message only, and the lookup of the user is the one
  statement it issues: no statement for previews, downloads or logins follows. The
  status is 404 when the database reads the \<^verbatim>\<open>userId\<close> as an id, and 500 when it does not.
\<close>

theorem get_user_no_matching_row:
  assumes "filter (matches_user P (p_userId req)) (users (database w)) = []"
  shows "get_user P req w =
           (if id_in P (p_userId req) = None
            then \<lparr>status = 500, body = Message Server_internal_error\<rparr>
            else \<lparr>status = 404, body = Message User_does_not_exist\<rparr>,
            w\<lparr>issued := issued w @ [SELECT_user_info]\<rparr>)"
proof (cases "id_in P (p_userId req)")
  case None
  then show ?thesis
    by (simp add: get_user_def user_info_sql_def rows_where_def sequelize_query_def
        internal_error_def)
next
  case (Some uid)
  then have "filter (\<lambda>u. u_id u = uid) (users (database w)) = []"
    using assms by (auto simp: matches_user_def filter_empty_conv)
  with Some show ?thesis
    by (simp add: get_user_def sequelize_query_def user_info_rows[OF Some] not_found_def)
qed

theorem get_user_no_matching_row_witness:
  "filter (matches_user P0 (p_userId (no_params\<lparr>p_userId := ''7''\<rparr>))) (users (database w0)) = []
   \<and> id_in P0 (p_userId (no_params\<lparr>p_userId := ''7''\<rparr>)) = Some 7
   \<and> get_user P0 (no_params\<lparr>p_userId := ''7''\<rparr>) w0 =
           (\<lparr>status = 404, body = Message User_does_not_exist\<rparr>,
            w0\<lparr>issued := issued w0 @ [SELECT_user_info]\<rparr>)"
proof -
  have a: "filter (matches_user P0 (p_userId (no_params\<lparr>p_userId := ''7''\<rparr>)))
             (users (database w0)) = []"
    by (simp add: matches_user_def P0_def w0_def d0_def mk_user_def)
  have b: "id_in P0 (p_userId (no_params\<lparr>p_userId := ''7''\<rparr>)) = Some 7"
    by (simp add: P0_def)
  show ?thesis
    using get_user_no_matching_row[OF a] a b by simp
qed

text \<open>
  C7. For the id of an existing user, \<^verbatim>\<open>GET /users/:userId\<close> answers 200 with at most 20
  preview records, at most 20 download records and at most 30 login records. The login
  records show the most recent of the user's successful logins; and where no two templates
  share an id (\<^verbatim>\<open>templates.id\<close> is the key the generations are joined on), the preview
  records show the most recent of the user's preview generations and the download records
  the most recent of the user's paid generations.
\<close>

theorem get_user_recent_records:
  assumes "id_in P (p_userId req) = Some uid"
    and "uid \<in> u_id ` set (users (database w))"
  shows "\<exists>userInfo previewRecords downloadRecords loginRecords.
           fst (get_user P req w) =
             \<lparr>status = 200,
              body = User_detail userInfo previewRecords downloadRecords loginRecords\<rparr>
           \<and> ui_id userInfo = uid
           \<and> length previewRecords \<le> 20
           \<and> length downloadRecords \<le> 20
           \<and> length loginRecords \<le> 30
           \<and> shows_most_recent 30 login_shows ll_login_time
                (filter (\<lambda>l. ll_user_id l = uid \<and> ll_login_success l) (login_logs (database w)))
                loginRecords
           \<and> (distinct (map t_id (templates (database w))) \<longrightarrow>
                shows_most_recent 20 (preview_shows (database w)) g_created_at
                  (filter (\<lambda>g. g_user_id g = uid \<and> g_generation_type g = ''preview'')
                     (generations (database w)))
                  previewRecords
                \<and> shows_most_recent 20 (download_shows (database w)) g_created_at
                  (filter (\<lambda>g. g_user_id g = uid
                                \<and> (g_generation_type g = ''paid'' \<or> g_is_paid g))
                     (generations (database w)))
                  downloadRecords)"
proof -
  let ?d = "database w"
  let ?tmpl = "\<lambda>g. find (\<lambda>t. g_template_id g = Some (t_id t)) (templates ?d)"
  let ?previews = "filter (\<lambda>g. g_user_id g = uid \<and> g_generation_type g = ''preview'')
                     (generations ?d)"
  let ?downloads = "filter (\<lambda>g. g_user_id g = uid \<and> (g_generation_type g = ''paid'' \<or> g_is_paid g))
                      (generations ?d)"
  let ?logins = "filter (\<lambda>l. ll_user_id l = uid \<and> ll_login_success l) (login_logs ?d)"
  let ?prs = "take 20 (order_by_desc pr_created_at
                (map preview_record_of (left_join_templates ?d ?previews)))"
  let ?drs = "take 20 (order_by_desc dr_created_at
                (map download_record_of (left_join_templates ?d ?downloads)))"
  let ?lrs = "take 30 (order_by_desc lr_login_time (map login_record_of ?logins))"
  obtain u us where us: "filter (\<lambda>u. u_id u = uid) (users ?d) = u # us"
    using assms(2) by (cases "filter (\<lambda>u. u_id u = uid) (users ?d)")
      (auto simp: filter_empty_conv)
  then have "u \<in> set (filter (\<lambda>u. u_id u = uid) (users ?d))" by simp
  then have uid: "ui_id (user_info_of ?d u) = uid"
    by (simp add: user_info_of_def Let_def)
  have resp: "fst (get_user P req w) =
      \<lparr>status = 200, body = User_detail (user_info_of ?d u) ?prs ?drs ?lrs\<rparr>"
    by (simp add: get_user_def sequelize_query_def user_info_rows[OF assms(1)] us
        preview_records_rows[OF assms(1)] download_records_rows[OF assms(1)]
        login_records_rows[OF assms(1)] json_def)
  have logins: "shows_most_recent 30 login_shows ll_login_time ?logins ?lrs"
    by (rule shows_most_recent_take_order_by_desc)
      (rule login_shows_record, simp add: login_record_of_def)
  have previews: "shows_most_recent 20 (preview_shows ?d) g_created_at ?previews ?prs"
    if "distinct (map t_id (templates ?d))"
    unfolding left_join_templates_primary_key[OF that] map_map comp_def
    by (rule shows_most_recent_take_order_by_desc)
      (rule preview_shows_record, simp add: preview_record_of_def)
  have downloads: "shows_most_recent 20 (download_shows ?d) g_created_at ?downloads ?drs"
    if "distinct (map t_id (templates ?d))"
    unfolding left_join_templates_primary_key[OF that] map_map comp_def
    by (rule shows_most_recent_take_order_by_desc)
      (rule download_shows_record, simp add: download_record_of_def)
  have "length ?prs \<le> 20" "length ?drs \<le> 20" "length ?lrs \<le> 30"
    by simp_all
  then show ?thesis
    unfolding resp using uid previews downloads logins
    by (intro exI conjI impI) (rule refl, assumption+)
qed

lemma shows_most_recent_length:
  "shows_most_recent n shows key all out \<Longrightarrow> length out = min n (length all)"
  by (auto simp: shows_most_recent_def most_recent_def dest: list_all2_lengthD)

theorem get_user_recent_records_witness:
  "id_in P0 (p_userId (no_params\<lparr>p_userId := ''1''\<rparr>)) = Some 1
   \<and> 1 \<in> u_id ` set (users (database w0))
   \<and> distinct (map t_id (templates (database w0)))
   \<and> (\<exists>userInfo previewRecords downloadRecords loginRecords.
           fst (get_user P0 (no_params\<lparr>p_userId := ''1''\<rparr>) w0) =
             \<lparr>status = 200,
              body = User_detail userInfo previewRecords downloadRecords loginRecords\<rparr>
           \<and> ui_id userInfo = 1
           \<and> length previewRecords = 1
           \<and> length downloadRecords = 2
           \<and> length loginRecords = 1)"
proof -
  have a: "id_in P0 (p_userId (no_params\<lparr>p_userId := ''1''\<rparr>)) = Some 1"
    by (simp add: P0_def)
  have b: "1 \<in> u_id ` set (users (database w0))"
    by (simp add: w0_def d0_def mk_user_def)
  have c: "distinct (map t_id (templates (database w0)))"
    by (simp add: w0_def d0_def)
  have n: "length (filter (\<lambda>g. g_user_id g = 1 \<and> g_generation_type g = ''preview'')
                     (generations (database w0))) = 1"
    "length (filter (\<lambda>g. g_user_id g = 1 \<and> (g_generation_type g = ''paid'' \<or> g_is_paid g))
                     (generations (database w0))) = 2"
    "length (filter (\<lambda>l. ll_user_id l = 1 \<and> ll_login_success l) (login_logs (database w0))) = 1"
    by (simp_all add: w0_def d0_def mk_gen_def mk_login_def)
  obtain userInfo previewRecords downloadRecords loginRecords where r:
    "fst (get_user P0 (no_params\<lparr>p_userId := ''1''\<rparr>) w0) =
       \<lparr>status = 200, body = User_detail userInfo previewRecords downloadRecords loginRecords\<rparr>"
    "ui_id userInfo = 1"
    "shows_most_recent 20 (preview_shows (database w0)) g_created_at
       (filter (\<lambda>g. g_user_id g = 1 \<and> g_generation_type g = ''preview'')
          (generations (database w0))) previewRecords"
    "shows_most_recent 20 (download_shows (database w0)) g_created_at
       (filter (\<lambda>g. g_user_id g = 1 \<and> (g_generation_type g = ''paid'' \<or> g_is_paid g))
          (generations (database w0))) downloadRecords"
    "shows_most_recent 30 login_shows ll_login_time
       (filter (\<lambda>l. ll_user_id l = 1 \<and> ll_login_success l) (login_logs (database w0)))
       loginRecords"
    using get_user_recent_records[OF a b] c by blast
  have "length previewRecords = 1" "length downloadRecords = 2" "length loginRecords = 1"
    using r(3-5) n by (auto dest!: shows_most_recent_length)
  with r(1,2) a b c show ?thesis by blast
qed

section \<open>The tables after a request\<close>

text \<open>
  The tables after a statement: a \<^verbatim>\<open>SELECT\<close> leaves them, a data-modifying statement that
  succeeds replaces them.
\<close>

lemma database_after_Select:
  "database (snd (sequelize_query (Select s rows) w)) = database w"
  by (simp add: sequelize_query_def)

lemma database_after_Modifying:
  "change (database w) = Inr (result, d) \<Longrightarrow>
   database (snd (sequelize_query (Modifying s change) w)) = d"
  by (simp add: sequelize_query_def)

lemma get_users_database: "database (snd (get_users P req w)) = database w"
  by (simp add: get_users_def sequelize_query_def Let_def split: sum.splits prod.splits)

lemma get_user_database: "database (snd (get_user P req w)) = database w"
  by (simp add: get_user_def sequelize_query_def Let_def split: sum.splits list.splits prod.splits)

lemma get_registrations_database: "database (snd (get_registrations P req w)) = database w"
  by (simp add: get_registrations_def sequelize_query_def Let_def split: sum.splits prod.splits)

lemma get_logins_database: "database (snd (get_logins P req w)) = database w"
  by (simp add: get_logins_def sequelize_query_def Let_def split: sum.splits prod.splits)

lemma get_online_duration_database: "database (snd (get_online_duration P req w)) = database w"
  by (simp add: get_online_duration_def sequelize_query_def Let_def split: sum.splits prod.splits)

lemma get_overview_database: "database (snd (get_overview P req w)) = database w"
  by (simp add: get_overview_def sequelize_query_def Let_def split: sum.splits prod.splits)

text \<open>
  C9. No handler of the router changes the tables: after any request to any of the six
  endpoints the database is the one before the request, because every statement that the
  handlers issue is a \<^verbatim>\<open>SELECT\<close>.
\<close>

theorem handlers_leave_database_unchanged:
  "database (snd (get_users P req w)) = database w
   \<and> database (snd (get_user P req w)) = database w
   \<and> database (snd (get_registrations P req w)) = database w
   \<and> database (snd (get_logins P req w)) = database w
   \<and> database (snd (get_online_duration P req w)) = database w
   \<and> database (snd (get_overview P req w)) = database w"
  by (simp only: get_users_database get_user_database get_registrations_database
      get_logins_database get_online_duration_database get_overview_database simp_thms)

section \<open>GET /online-duration and the success flag\<close>

lemma id_bound_cases:
  assumes "id_bound P x = Some b"
  shows "(\<not> truthy x \<and> b = None) \<or>
         (\<exists>s i. x = Some s \<and> s \<noteq> [] \<and> id_in P s = Some i \<and> b = Some i)"
proof (cases "truthy x")
  case False
  then have "b = None"
    using assms by (cases x; auto simp: id_bound_def)
  with False show ?thesis by simp
next
  case True
  then obtain s where s: "x = Some s" "s \<noteq> []" by (cases x) auto
  with assms obtain i where "id_in P s = Some i" "b = Some i"
    by (cases "id_in P s") (auto simp: id_bound_def)
  with s show ?thesis by simp
qed

lemma online_duration_rows:
  assumes "id_bound P (q_userId req) = Some uid"
    and "date_bound P (q_dateFrom req) = Some lo" "date_bound P (q_dateTo req) = Some hi"
  shows "fst (get_online_duration P req w) =
           json (Online_duration
                   (duration_rows_of
                      (filter (counts_for_duration uid lo hi) (login_logs (database w)))))"
  using id_bound_cases[OF assms(1)] date_bound_cases[OF assms(2)] date_bound_cases[OF assms(3)]
  apply (elim disjE conjE exE)
         apply (simp_all add: get_online_duration_def when_truthy_simps online_duration_sql_def
      rows_where_def sequelize_query_def in_range_def counts_for_duration_def[abs_def])
  done

lemma sum_list_weighted_indicator:
  "distinct ks \<Longrightarrow>
   sum_list (map (\<lambda>k. if a = k then (c::int) else 0) ks) = (if a \<in> set ks then c else 0)"
  by (induction ks) auto

lemma sum_group_sums:
  "distinct ks \<Longrightarrow> key ` set rows \<subseteq> set ks \<Longrightarrow>
   sum_list (map (\<lambda>k. sum_list (map f (filter (\<lambda>r. key r = k) rows))) ks)
     = sum_list (map (f :: _ \<Rightarrow> int) rows)"
proof (induction rows)
  case Nil
  then show ?case by simp
next
  case (Cons r rows)
  have "sum_list (map (\<lambda>k. sum_list (map f (filter (\<lambda>r. key r = k) (r # rows)))) ks)
      = sum_list (map (\<lambda>k. (if key r = k then f r else 0)
                            + sum_list (map f (filter (\<lambda>r. key r = k) rows))) ks)"
    by (rule arg_cong[where f=sum_list]) simp
  also have "\<dots> = sum_list (map (\<lambda>k. if key r = k then f r else 0) ks)
                 + sum_list (map (\<lambda>k. sum_list (map f (filter (\<lambda>r. key r = k) rows))) ks)"
    by (simp add: sum_list_addf)
  also have "sum_list (map (\<lambda>k. if key r = k then f r else 0) ks) = f r"
    using Cons.prems by (simp add: sum_list_weighted_indicator)
  finally show ?case using Cons by simp
qed

lemma seconds_of_sql_sum: "seconds_of (sql_sum vs) = sum_list (map seconds_of vs)"
proof -
  have "sum_list (List.map_filter id vs) = sum_list (map seconds_of vs)"
    by (induction vs) (auto simp: List.map_filter_simps seconds_of_def split: option.splits)
  then show ?thesis
    by (cases "List.map_filter id vs") (auto simp: sql_sum_def seconds_of_def)
qed

lemma duration_rows_session_count:
  "sum_list (map od_session_count (duration_rows_of rows)) = int (length rows)"
proof -
  let ?key = "\<lambda>l. (ll_username l, DATE (ll_login_time l))"
  have "sum_list (map od_session_count (duration_rows_of rows))
      = sum_list (map (\<lambda>k. count_rows (filter (\<lambda>l. ?key l = k) rows)) (group_keys ?key rows))"
    unfolding duration_rows_of_def sum_list_order_by_desc
    by (simp add: comp_def case_prod_beta Let_def prod_eq_iff)
  also have "\<dots> = int (length rows)"
    by (rule sum_group_counts) (simp_all add: group_keys_def)
  finally show ?thesis .
qed

lemma duration_rows_total_seconds:
  "sum_list (map (\<lambda>r. seconds_of (od_total_seconds r)) (duration_rows_of rows))
     = sum_list (map (\<lambda>l. seconds_of (ll_session_duration l)) rows)"
proof -
  let ?key = "\<lambda>l. (ll_username l, DATE (ll_login_time l))"
  let ?f = "\<lambda>l. seconds_of (ll_session_duration l)"
  have "sum_list (map (\<lambda>r. seconds_of (od_total_seconds r)) (duration_rows_of rows))
      = sum_list (map (\<lambda>k. sum_list (map ?f (filter (\<lambda>l. ?key l = k) rows))) (group_keys ?key rows))"
    unfolding duration_rows_of_def sum_list_order_by_desc
    by (simp add: comp_def case_prod_beta Let_def prod_eq_iff seconds_of_sql_sum)
  also have "\<dots> = sum_list (map ?f rows)"
    by (rule sum_group_sums) (simp_all add: group_keys_def)
  finally show ?thesis .
qed

lemma conjuncts_last_condition:
  "conjuncts (ts @ [Kw_AND, Cond x]) = Inr cs \<Longrightarrow> x \<in> set cs"
  by (induction ts arbitrary: cs rule: conjuncts.induct) (auto split: sum.splits)

lemma where_clause_last_condition:
  assumes "where_clause (f @ [Kw_AND, Cond x]) = Inr cs"
  shows "x \<in> set cs"
proof (cases f)
  case Nil
  with assms show ?thesis by simp
next
  case (Cons t ts)
  with assms show ?thesis
    by (cases t) (auto dest: conjuncts_last_condition)
qed

lemma bind_all_implies:
  "bind_all P rs cs = Inr p \<Longrightarrow> c \<in> set cs \<Longrightarrow> \<exists>q. bind P rs c = Inr q \<and> (\<forall>r. p r \<longrightarrow> q r)"
  by (induction cs arbitrary: p) (auto split: sum.splits)

lemma rows_where_Is_true:
  "rows_where P rs (f @ [Kw_AND, Cond (Is_true c)]) (filter c table)
     = rows_where P rs (f @ [Kw_AND, Cond (Is_true c)]) table"
proof (cases "where_clause (f @ [Kw_AND, Cond (Is_true c)])")
  case (Inl e)
  then show ?thesis by (simp add: rows_where_def)
next
  case (Inr cs)
  show ?thesis
  proof (cases "bind_all P rs cs")
    case (Inl e)
    with Inr show ?thesis by (simp add: rows_where_def)
  next
    case inr: (Inr p)
    have "Is_true c \<in> set cs"
      using Inr by (rule where_clause_last_condition)
    with inr have "\<forall>r. p r \<longrightarrow> c r"
      by (auto dest!: bind_all_implies)
    then have "filter p (filter c table) = filter p table"
      by (auto intro: filter_cong)
    with Inr inr show ?thesis by (simp add: rows_where_def)
  qed
qed

lemma logins_sql_successful:
  "logins_sql P f rs (d\<lparr>login_logs := filter ll_login_success (login_logs d)\<rparr>) = logins_sql P f rs d"
  by (simp add: logins_sql_def rows_where_Is_true)

lemma active_users_sql_successful:
  "active_users_sql P f rs (d\<lparr>login_logs := filter ll_login_success (login_logs d)\<rparr>)
     = active_users_sql P f rs d"
  by (simp add: active_users_sql_def rows_where_Is_true)

lemma total_logins_sql_successful:
  "total_logins_sql P f rs (d\<lparr>login_logs := filter ll_login_success (login_logs d)\<rparr>)
     = total_logins_sql P f rs d"
  by (simp add: total_logins_sql_def rows_where_Is_true)

lemma login_records_sql_successful:
  "login_records_sql P rs (d\<lparr>login_logs := filter ll_login_success (login_logs d)\<rparr>)
     = login_records_sql P rs d"
  using rows_where_Is_true[of P rs "[Kw_WHERE, Cond (Eq_id ll_user_id ''userId'')]"
      ll_login_success "login_logs d"]
  by (simp add: login_records_sql_def)

lemma user_row_of_successful:
  "user_row_of (d\<lparr>login_logs := filter ll_login_success (login_logs d)\<rparr>) = user_row_of d"
  by (rule ext) (simp add: user_row_of_def conj_commute)

lemma user_info_of_successful:
  "user_info_of (d\<lparr>login_logs := filter ll_login_success (login_logs d)\<rparr>) = user_info_of d"
  by (rule ext) (simp add: user_info_of_def conj_commute)

lemma get_logins_successful_only:
  "fst (get_logins P req (successful_only w)) = fst (get_logins P req w)"
  by (simp add: get_logins_def successful_only_def sequelize_query_def logins_sql_successful
      Let_def split: sum.splits prod.splits)

lemma get_overview_successful_only:
  "fst (get_overview P req (successful_only w)) = fst (get_overview P req w)"
  by (simp add: get_overview_def successful_only_def sequelize_query_def
      active_users_sql_successful total_logins_sql_successful
      total_users_sql_def total_previews_sql_def total_downloads_sql_def
      Let_def split: sum.splits prod.splits)

lemma get_users_successful_only:
  "fst (get_users P req (successful_only w)) = fst (get_users P req w)"
  by (simp add: get_users_def successful_only_def sequelize_query_def
      users_page_sql_def users_total_sql_def user_row_of_successful
      Let_def split: sum.splits prod.splits)

lemma get_user_successful_only:
  "fst (get_user P req (successful_only w)) = fst (get_user P req w)"
  by (simp add: get_user_def successful_only_def sequelize_query_def
      user_info_sql_def user_info_of_successful login_records_sql_successful
      preview_records_sql_def download_records_sql_def left_join_templates_def
      Let_def split: sum.splits list.splits prod.splits)

text \<open>
  C10. For every request to \<^verbatim>\<open>GET /online-duration\<close> whose filters the database accepts,
  the rows that are aggregated are exactly the login-log rows with a session duration that
  match the optional user and date filters, successful or not: the session counts add up
  to their number and the total seconds to the sum of their durations. The login figures
  of the four other handlers that read \<^verbatim>\<open>login_logs\<close> do not change when the rows of
  failed logins are deleted.
\<close>

theorem online_duration_ignores_login_success:
  assumes "id_bound P (q_userId req) = Some uid"
    and "date_bound P (q_dateFrom req) = Some lo" "date_bound P (q_dateTo req) = Some hi"
  shows "\<exists>rows.
           fst (get_online_duration P req w) = \<lparr>status = 200, body = Online_duration rows\<rparr>
           \<and> rows = duration_rows_of
                      (filter (counts_for_duration uid lo hi) (login_logs (database w)))
           \<and> sum_list (map od_session_count rows)
               = int (length (filter (counts_for_duration uid lo hi) (login_logs (database w))))
           \<and> sum_list (map (\<lambda>r. seconds_of (od_total_seconds r)) rows)
               = sum_list (map (\<lambda>l. seconds_of (ll_session_duration l))
                            (filter (counts_for_duration uid lo hi) (login_logs (database w))))
           \<and> fst (get_logins P req (successful_only w)) = fst (get_logins P req w)
           \<and> fst (get_overview P req (successful_only w)) = fst (get_overview P req w)
           \<and> fst (get_users P req (successful_only w)) = fst (get_users P req w)
           \<and> fst (get_user P req (successful_only w)) = fst (get_user P req w)"
  using online_duration_rows[OF assms, of w]
  by (simp add: json_def duration_rows_session_count duration_rows_total_seconds
      get_logins_successful_only get_overview_successful_only get_users_successful_only
      get_user_successful_only)

theorem online_duration_ignores_login_success_witness:
  "id_bound P0 (q_userId no_params) = Some None
   \<and> date_bound P0 (q_dateFrom no_params) = Some None
   \<and> date_bound P0 (q_dateTo no_params) = Some None
   \<and> filter (counts_for_duration None None None) (login_logs (database w0))
        = [mk_login 1 1 ''alice'' 10 True (Some 30), mk_login 2 1 ''alice'' 20 False (Some 40)]
   \<and> fst (get_online_duration P0 no_params w0) =
        \<lparr>status = 200,
         body = Online_duration [\<lparr>od_username = ''alice'', od_date = 0,
                                  od_total_seconds = Some 70, od_session_count = 2\<rparr>]\<rparr>"
proof -
  have a: "id_bound P0 (q_userId no_params) = Some None"
    by (simp add: id_bound_def no_params_def)
  have b: "date_bound P0 (q_dateFrom no_params) = Some None"
    by (simp add: date_bound_def no_params_def)
  have c: "date_bound P0 (q_dateTo no_params) = Some None"
    by (simp add: date_bound_def no_params_def)
  have rows: "filter (counts_for_duration None None None) (login_logs (database w0))
        = [mk_login 1 1 ''alice'' 10 True (Some 30), mk_login 2 1 ''alice'' 20 False (Some 40)]"
    by (simp add: counts_for_duration_def in_range_def w0_def d0_def mk_login_def)
  have grouped: "duration_rows_of
        [mk_login 1 1 ''alice'' 10 True (Some 30), mk_login 2 1 ''alice'' 20 False (Some 40)]
      = [\<lparr>od_username = ''alice'', od_date = 0, od_total_seconds = Some 70,
           od_session_count = 2\<rparr>]"
    by (simp add: duration_rows_of_def group_keys_def order_by_desc_def mk_login_def DATE_def
        sql_sum_def List.map_filter_simps count_rows_def)
  show ?thesis
    using online_duration_ignores_login_success[OF a b c, of w0] a b c rows grouped by simp
qed

section \<open>GET /users\<close>






section \<open>GET /users: searching\<close>












section \<open>The remaining branches\<close>

text \<open>
  The failure of C1 and C2 does not depend on the other parameters: it is the branch
  in which both dates are falsy (absent or empty).
\<close>

lemma get_logins_falsy_dates:
  "\<not> truthy (q_dateFrom req) \<Longrightarrow> \<not> truthy (q_dateTo req) \<Longrightarrow>
   fst (get_logins P req w) = internal_error"
  by (simp add: get_logins_def when_truthy_simps logins_sql_def rows_where_def
      sequelize_query_def)

lemma get_overview_falsy_dates:
  "\<not> truthy (q_dateFrom req) \<Longrightarrow> \<not> truthy (q_dateTo req) \<Longrightarrow>
   fst (get_overview P req w) = internal_error"
  by (simp add: get_overview_def when_truthy_simps total_users_sql_def active_users_sql_def
      rows_where_def sequelize_query_def)

text \<open>With at least one date, \<^verbatim>\<open>GET /logins\<close> answers with the successful logins per day.\<close>

lemma get_logins_with_dates:
  assumes "date_bound P (q_dateFrom req) = Some lo" "date_bound P (q_dateTo req) = Some hi"
    and "truthy (q_dateFrom req) \<or> truthy (q_dateTo req)"
    and "rows = filter (\<lambda>l. in_range lo hi (ll_login_time l) \<and> ll_login_success l)
                  (login_logs (database w))"
  shows "fst (get_logins P req w) =
     json (Logins (order_by_desc lg_date
        (map (\<lambda>k. \<lparr>lg_date = k,
                   lg_unique_users =
                     count_distinct ll_user_id (filter (\<lambda>l. DATE (ll_login_time l) = k) rows),
                   lg_total_logins =
                     count_rows (filter (\<lambda>l. DATE (ll_login_time l) = k) rows)\<rparr>)
             (group_keys (\<lambda>l. DATE (ll_login_time l)) rows))))"
  using date_bound_cases[OF assms(1)] date_bound_cases[OF assms(2)] assms(3)
  unfolding assms(4)
  apply (elim disjE conjE exE)
         apply (simp_all add: get_logins_def when_truthy_simps logins_sql_def
      rows_where_def sequelize_query_def in_range_def Let_def conj_ac)
  done

text \<open>
  A date or an id that the database cannot read makes the statement fail; the handler
  answers 500.
\<close>

lemma get_user_invalid_id:
  "id_in P (p_userId req) = None \<Longrightarrow> fst (get_user P req w) = internal_error"
  by (simp add: get_user_def user_info_sql_def rows_where_def sequelize_query_def)

lemma get_registrations_invalid_date:
  assumes "q_dateFrom req = Some s" "s \<noteq> []" "timestamp_in P s = None"
  shows "fst (get_registrations P req w) = internal_error"
proof (cases "truthy (q_dateTo req)")
  case False
  with assms show ?thesis
    by (simp add: get_registrations_def when_truthy_simps registrations_sql_def rows_where_def
        sequelize_query_def)
next
  case True
  then obtain s' where "q_dateTo req = Some s'" "s' \<noteq> []"
    by (cases "q_dateTo req") auto
  with assms show ?thesis
    by (simp add: get_registrations_def when_truthy_simps registrations_sql_def rows_where_def
        sequelize_query_def)
qed

end
